theory Spec2Isabelle
  imports Complex_Main "HOL-Library.Log_Nat"
begin

section \<open>The falling-letter shooter: data model\<close>

text \<open>
  The game script keeps its whole state in module-level variables and in the style
  attributes of the elements it creates. The model collects them in records and passes
  the state through every function. A JavaScript string is the list of its UTF-16 code
  units.

  A JavaScript number is a double. The model holds the value of a finite double as a
  rational and writes the rounding out where the script's arithmetic is not exact: the
  fall speed and the vertical position of a letter (\<open>fallSpeed\<close>, \<open>moveLetter\<close>), the
  products with the results of \<open>Math.random()\<close> (\<open>pick\<close>, \<open>newLetter\<close>), and the decimal
  literals of the difficulty settings. The other sums and comparisons of the
  game (the score, the spawn interval, the player's and the projectiles' offsets, which
  are integers or halves of integers) are exact in doubles. The lightness of a key is
  kept as the exact quotient.
\<close>

type_synonym codeunit = nat
type_synonym jsstring = "codeunit list"

definition js :: "string \<Rightarrow> jsstring" where
  "js cs = map of_char cs"

subsection \<open>Doubles\<close>

text \<open>
  Round to nearest, ties to even, into the binary64 format: 53 significant bits, and the
  fixed quantum \<open>2 powi - 1074\<close> below the normal range. \<open>ilog2 a\<close> is the exponent \<open>e\<close> with
  \<open>2 powi e \<le> a < 2 powi (e + 1)\<close>. Overflow to \<open>Infinity\<close> is not part of the model: no
  number of the game comes near \<open>2 powi 1024\<close>.
\<close>

definition ilog2 :: "rat \<Rightarrow> int" where
  "ilog2 a = (if 1 \<le> a then bitlen \<lfloor>a\<rfloor> - 1 else - bitlen (\<lceil>1 / a\<rceil> - 1))"

definition roundHalfEven :: "rat \<Rightarrow> int" where
  "roundHalfEven r =
     (let n = \<lfloor>r\<rfloor>; f = r - of_int n
      in if f < 1 / 2 then n else if 1 / 2 < f then n + 1
         else if even n then n else n + 1)"

definition quantum :: "rat \<Rightarrow> rat" where
  "quantum a = 2 powi (max (ilog2 a - 52) (- 1074))"

text \<open>The double nearest to \<open>x\<close>: the value of a decimal literal, or of an exact result.\<close>

definition double :: "rat \<Rightarrow> rat" where
  "double x =
     (if x = 0 then 0
      else sgn x * of_int (roundHalfEven (\<bar>x\<bar> / quantum \<bar>x\<bar>)) * quantum \<bar>x\<bar>)"

text \<open>JavaScript's \<open>+\<close> and \<open>*\<close> on two doubles.\<close>

definition fadd :: "rat \<Rightarrow> rat \<Rightarrow> rat" where
  "fadd x y = double (x + y)"

definition fmul :: "rat \<Rightarrow> rat \<Rightarrow> rat" where
  "fmul x y = double (x * y)"

subsection \<open>The page and the constants of the script\<close>

text \<open>
  Values that the script reads from the page once, and the sequence of results of
  \<open>Math.random()\<close>. The heights of a letter and of a projectile come from the style
  sheet, which fixes the widths to \<open>LETTER_WIDTH\<close> and \<open>PROJECTILE_WIDTH\<close>.
\<close>

record page =
  GAME_WIDTH :: int
  GAME_HEIGHT :: int
  PLAYER_WIDTH :: int
  PLAYER_HEIGHT :: int
  LETTER_HEIGHT :: rat
  PROJECTILE_HEIGHT :: rat
  random :: "nat \<Rightarrow> rat"

definition LETTER_WIDTH :: int where "LETTER_WIDTH = 40"
definition PROJECTILE_WIDTH :: int where "PROJECTILE_WIDTH = 25"
definition PLAYER_SPEED :: rat where "PLAYER_SPEED = 8"
definition PROJECTILE_SPEED :: int where "PROJECTILE_SPEED = 10"

datatype difficulty = Easy | Normal | Hard

record settings =
  speed :: rat
  increase :: rat
  spawn :: int

text \<open>The literals \<open>0.3\<close>, \<open>0.05\<close> and \<open>0.15\<close> denote the doubles nearest to them.\<close>

fun DIFFICULTY_SETTINGS :: "difficulty \<Rightarrow> settings" where
  "DIFFICULTY_SETTINGS Easy =
     \<lparr>speed = double (3 / 10), increase = double (1 / 20), spawn = 10000\<rparr>"
| "DIFFICULTY_SETTINGS Normal = \<lparr>speed = 1, increase = double (3 / 20), spawn = 5000\<rparr>"
| "DIFFICULTY_SETTINGS Hard = \<lparr>speed = 2, increase = double (1 / 20), spawn = 3000\<rparr>"

definition MIN_SPAWN_INTERVAL :: int where "MIN_SPAWN_INTERVAL = 400"
definition SPAWN_INTERVAL_REDUCTION_PER_SCORE :: int where
  "SPAWN_INTERVAL_REDUCTION_PER_SCORE = 10"

definition ENGLISH_KEYBOARD_LAYOUT :: "jsstring list" where
  "ENGLISH_KEYBOARD_LAYOUT = [js ''QWERTYUIOP'', js ''ASDFGHJKL'', js ''ZXCVBNM'']"

text \<open>The Hebrew rows, as the code units U+05D0 .. U+05EA of their letters.\<close>

definition HEBREW_KEYBOARD_LAYOUT :: "jsstring list" where
  "HEBREW_KEYBOARD_LAYOUT =
     [[1511, 1512, 1488, 1496, 1493, 1503, 1501, 1508],
      [1513, 1491, 1490, 1499, 1506, 1497, 1495, 1500, 1498, 1507],
      [1494, 1505, 1489, 1492, 1504, 1502, 1510, 1514, 1509]]"

text \<open>\<open>layout.join('').split('')\<close>: one string of a single code unit per key.\<close>

definition split_chars :: "jsstring list \<Rightarrow> jsstring list" where
  "split_chars layout = map (\<lambda>c. [c]) (concat layout)"

definition ENGLISH_CHARACTERS :: "jsstring list" where
  "ENGLISH_CHARACTERS = split_chars ENGLISH_KEYBOARD_LAYOUT"

definition HEBREW_CHARACTERS :: "jsstring list" where
  "HEBREW_CHARACTERS = split_chars HEBREW_KEYBOARD_LAYOUT"

datatype language = En | He

text \<open>
  A falling letter: the object pushed by \<open>createLetter\<close> together with the \<open>left\<close> and
  \<open>top\<close> style of its element. Its character is \<open>None\<close> where the array read of
  \<open>createLetter\<close> yields \<open>undefined\<close>.
\<close>

record letter =
  letter_character :: "jsstring option"
  letter_y :: rat
  letter_left :: int
  letter_top :: int

text \<open>A projectile: its character and the \<open>left\<close> and \<open>top\<close> style of its element.\<close>

record projectile =
  proj_character :: jsstring
  proj_left :: rat
  proj_top :: int

text \<open>
  The style of an on-screen key: the default style, or the red background
  \<open>hsl(0, 90%, l%)\<close> with white text, recorded by its lightness \<open>l\<close>.
\<close>

datatype key_style = Default | Hsl rat

text \<open>
  The script's variables, followed by the part of the browser that it drives: the pending
  timeouts (identifier and delay in milliseconds), the next timeout identifier and the
  number of calls of \<open>Math.random()\<close> made so far. The texts of the score displays, the
  visibility of the screens and the re-registration of the frame callback are left out:
  one call of \<open>gameLoop\<close> is one animation frame.
\<close>

record game =
  initialFallSpeed :: rat
  fallSpeedIncreasePerScore :: rat
  initialSpawnInterval :: int
  score :: nat
  selectedLanguage :: language
  gameIsActive :: bool
  playerPosition :: rat
  fallingLetters :: "letter list"
  projectiles :: "projectile list"
  keyboardMap :: "(jsstring \<times> key_style) list"
  isMovingLeft :: bool
  isMovingRight :: bool
  letterInterval :: "nat option"
  timers :: "(nat \<times> int) list"
  nextTimerId :: nat
  randomCalls :: nat

section \<open>Browser primitives\<close>

definition setTimeout :: "int \<Rightarrow> game \<Rightarrow> nat \<times> game" where
  "setTimeout delay s =
     (nextTimerId s,
      s\<lparr>timers := timers s @ [(nextTimerId s, delay)], nextTimerId := Suc (nextTimerId s)\<rparr>)"

definition clearTimeout :: "nat option \<Rightarrow> game \<Rightarrow> game" where
  "clearTimeout t s =
     (case t of None \<Rightarrow> s
      | Some i \<Rightarrow> s\<lparr>timers := filter (\<lambda>p. fst p \<noteq> i) (timers s)\<rparr>)"

text \<open>\<open>xs.splice(i, 1)\<close>\<close>

definition splice1 :: "nat \<Rightarrow> 'a list \<Rightarrow> 'a list" where
  "splice1 i xs = take i xs @ drop (Suc i) xs"

text \<open>\<open>xs[Math.floor(r * xs.length)]\<close>, which is \<open>undefined\<close> outside the array.\<close>

definition pick :: "'a list \<Rightarrow> rat \<Rightarrow> 'a option" where
  "pick xs r =
     (let i = \<lfloor>fmul r (of_nat (length xs))\<rfloor>
      in if 0 \<le> i \<and> i < int (length xs) then Some (xs ! nat i) else None)"

text \<open>
  \<open>toUpperCase\<close> and \<open>toLowerCase\<close> on the Basic Latin letters; every other code unit is
  left as it is. This is what JavaScript does on the Hebrew letters of the layout, hence
  on every key that \<open>handleKeyPress\<close> lets through and on every character that a
  projectile carries.
\<close>

definition isLower :: "codeunit \<Rightarrow> bool" where
  "isLower c = (97 \<le> c \<and> c \<le> 122)"

definition isUpper :: "codeunit \<Rightarrow> bool" where
  "isUpper c = (65 \<le> c \<and> c \<le> 90)"

definition toUpperCase :: "jsstring \<Rightarrow> jsstring" where
  "toUpperCase cs = map (\<lambda>c. if isLower c then c - 32 else c) cs"

definition toLowerCase :: "jsstring \<Rightarrow> jsstring" where
  "toLowerCase cs = map (\<lambda>c. if isUpper c then c + 32 else c) cs"

text \<open>\<open>str.match(/[a-z]/i)\<close>: some code unit of the string is a Basic Latin letter.\<close>

definition match_az_i :: "jsstring \<Rightarrow> bool" where
  "match_az_i cs = list_ex (\<lambda>c. isLower c \<or> isUpper c) cs"

section \<open>Spawning and scheduling\<close>

text \<open>
  The object that \<open>createLetter\<close> pushes when the language is \<open>lang\<close> and \<open>n\<close> calls of
  \<open>Math.random()\<close> have been made before.
\<close>

definition newLetter :: "page \<Rightarrow> language \<Rightarrow> nat \<Rightarrow> letter" where
  "newLetter E lang n =
     (let character =
            (if lang = He then pick HEBREW_CHARACTERS (random E n)
             else pick ENGLISH_CHARACTERS (random E n));
          randomX = \<lfloor>fmul (random E (Suc n)) (of_int (GAME_WIDTH E - LETTER_WIDTH))\<rfloor>
      in \<lparr>letter_character = character, letter_y = 0, letter_left = randomX, letter_top = 0\<rparr>)"

definition createLetter :: "page \<Rightarrow> game \<Rightarrow> game" where
  "createLetter E s =
     s\<lparr>fallingLetters := fallingLetters s @ [newLetter E (selectedLanguage s) (randomCalls s)],
       randomCalls := Suc (Suc (randomCalls s))\<rparr>"

text \<open>\<open>keyboardMap.set(char, keyElement)\<close> on the insertion-ordered map.\<close>

fun map_set :: "'k \<Rightarrow> 'v \<Rightarrow> ('k \<times> 'v) list \<Rightarrow> ('k \<times> 'v) list" where
  "map_set k v [] = [(k, v)]"
| "map_set k v ((k', v') # m) = (if k = k' then (k, v) # m else (k', v') # map_set k v m)"

definition setupKeyboard :: "game \<Rightarrow> game" where
  "setupKeyboard s =
     (let layout = (if selectedLanguage s = He then HEBREW_KEYBOARD_LAYOUT
                    else ENGLISH_KEYBOARD_LAYOUT)
      in s\<lparr>keyboardMap := fold (\<lambda>char m. map_set [char] Default m) (concat layout) []\<rparr>)"

definition createProjectile :: "page \<Rightarrow> jsstring \<Rightarrow> game \<Rightarrow> game" where
  "createProjectile E character s =
     (let projectileX = playerPosition s + of_int (PLAYER_WIDTH E) / 2
                          - of_int PROJECTILE_WIDTH / 2;
          projectileY = GAME_HEIGHT E - PLAYER_HEIGHT E
      in s\<lparr>projectiles := projectiles s @
              [\<lparr>proj_character = character, proj_left = projectileX,
                proj_top = projectileY\<rparr>]\<rparr>)"

definition nextInterval :: "game \<Rightarrow> int" where
  "nextInterval s =
     (let intervalReduction = int (score s) * SPAWN_INTERVAL_REDUCTION_PER_SCORE
      in max MIN_SPAWN_INTERVAL (initialSpawnInterval s - intervalReduction))"

definition scheduleNextLetter :: "game \<Rightarrow> game" where
  "scheduleNextLetter s =
     (if \<not> gameIsActive s then s
      else case setTimeout (nextInterval s) s of
             (t, s') \<Rightarrow> s'\<lparr>letterInterval := Some t\<rparr>)"

text \<open>The callback that \<open>scheduleNextLetter\<close> hands to \<open>setTimeout\<close>.\<close>

definition letterCallback :: "page \<Rightarrow> game \<Rightarrow> game" where
  "letterCallback E s = scheduleNextLetter (createLetter E s)"

section \<open>Game over\<close>

definition endGame :: "game \<Rightarrow> game" where
  "endGame s =
     (let s1 = clearTimeout (letterInterval s) (s\<lparr>gameIsActive := False\<rparr>)
      in s1\<lparr>keyboardMap := map (\<lambda>(char, keyElement). (char, Default)) (keyboardMap s1)\<rparr>)"

section \<open>The per-frame updates\<close>

text \<open>
  \<open>initialFallSpeed + (score * fallSpeedIncreasePerScore)\<close>, the product rounded and then
  the sum. The score is an integer below \<open>2 ^ 53\<close> in every session, hence a double as it
  stands.
\<close>

definition fallSpeed :: "game \<Rightarrow> rat" where
  "fallSpeed s =
     fadd (initialFallSpeed s) (fmul (of_nat (score s)) (fallSpeedIncreasePerScore s))"

text \<open>\<open>letter.y += fallSpeed\<close>, and the element's \<open>top\<close> set to \<open>Math.floor(letter.y)\<close>.\<close>

definition moveLetter :: "rat \<Rightarrow> letter \<Rightarrow> letter" where
  "moveLetter v letter =
     letter\<lparr>letter_y := fadd (letter_y letter) v,
            letter_top := \<lfloor>fadd (letter_y letter) v\<rfloor>\<rparr>"

text \<open>
  The loop of \<open>updateLetters\<close>; \<open>updateLettersFrom E n s\<close> runs it for the indices
  \<open>n - 1\<close> down to \<open>0\<close>.
\<close>

fun updateLettersFrom :: "page \<Rightarrow> nat \<Rightarrow> game \<Rightarrow> game" where
  "updateLettersFrom E 0 s = s"
| "updateLettersFrom E (Suc i) s =
     (let letter = moveLetter (fallSpeed s) (fallingLetters s ! i);
          s1 = s\<lparr>fallingLetters := (fallingLetters s)[i := letter]\<rparr>
      in if letter_y letter > of_int (GAME_HEIGHT E) then endGame s1
         else updateLettersFrom E i s1)"

definition updateLetters :: "page \<Rightarrow> game \<Rightarrow> game" where
  "updateLetters E s = updateLettersFrom E (length (fallingLetters s)) s"

text \<open>\<open>letter.element.offsetTop / (GAME_HEIGHT - LETTER_WIDTH)\<close>\<close>

definition proximity :: "page \<Rightarrow> letter \<Rightarrow> rat" where
  "proximity E letter = of_int (letter_top letter) / of_int (GAME_HEIGHT E - LETTER_WIDTH)"

definition proximityStep ::
  "page \<Rightarrow> letter \<Rightarrow> (jsstring option \<rightharpoonup> rat) \<Rightarrow> (jsstring option \<rightharpoonup> rat)" where
  "proximityStep E letter m =
     (let char = letter_character letter
      in case m char of
           None \<Rightarrow> m(char \<mapsto> proximity E letter)
         | Some old \<Rightarrow> if proximity E letter > old then m(char \<mapsto> proximity E letter) else m)"

definition proximityMap :: "page \<Rightarrow> letter list \<Rightarrow> (jsstring option \<rightharpoonup> rat)" where
  "proximityMap E letters = fold (proximityStep E) letters Map.empty"

definition keyStyle :: "(jsstring option \<rightharpoonup> rat) \<Rightarrow> jsstring \<Rightarrow> key_style" where
  "keyStyle m char =
     (case m (Some char) of
        Some p \<Rightarrow> (let intensity = min p 1; lightness = 70 - 25 * intensity in Hsl lightness)
      | None \<Rightarrow> Default)"

definition updateKeyboardVisuals :: "page \<Rightarrow> game \<Rightarrow> game" where
  "updateKeyboardVisuals E s =
     (let m = proximityMap E (fallingLetters s)
      in s\<lparr>keyboardMap := map (\<lambda>(char, keyElement). (char, keyStyle m char)) (keyboardMap s)\<rparr>)"

text \<open>
  Bounding rectangles, in the coordinates of the game container (both elements are its
  children, so the container's own offset cancels in every comparison).
\<close>

record rect =
  rect_left :: rat
  rect_right :: rat
  rect_top :: rat
  rect_bottom :: rat

definition projRectOf :: "page \<Rightarrow> projectile \<Rightarrow> rect" where
  "projRectOf E p =
     \<lparr>rect_left = proj_left p, rect_right = proj_left p + of_int PROJECTILE_WIDTH,
      rect_top = of_int (proj_top p),
      rect_bottom = of_int (proj_top p) + PROJECTILE_HEIGHT E\<rparr>"

definition letterRectOf :: "page \<Rightarrow> letter \<Rightarrow> rect" where
  "letterRectOf E l =
     \<lparr>rect_left = of_int (letter_left l),
      rect_right = of_int (letter_left l) + of_int LETTER_WIDTH,
      rect_top = of_int (letter_top l),
      rect_bottom = of_int (letter_top l) + LETTER_HEIGHT E\<rparr>"

definition overlapping :: "rect \<Rightarrow> rect \<Rightarrow> bool" where
  "overlapping projRect letterRect =
     (rect_left projRect < rect_right letterRect \<and> rect_right projRect > rect_left letterRect \<and>
      rect_top projRect < rect_bottom letterRect \<and> rect_bottom projRect > rect_top letterRect)"

text \<open>The two nested conditions of the inner loop of \<open>updateProjectiles\<close>.\<close>

definition collides :: "page \<Rightarrow> projectile \<Rightarrow> letter \<Rightarrow> bool" where
  "collides E proj letter =
     (Some (toUpperCase (proj_character proj)) = letter_character letter \<and>
      overlapping (projRectOf E proj) (letterRectOf E letter))"

text \<open>
  The inner loop: \<open>scanLetters E proj letters n\<close> looks at the indices \<open>n - 1\<close> down to
  \<open>0\<close> and returns the first one at which the projectile collides.
\<close>

fun scanLetters :: "page \<Rightarrow> projectile \<Rightarrow> letter list \<Rightarrow> nat \<Rightarrow> nat option" where
  "scanLetters E proj letters 0 = None"
| "scanLetters E proj letters (Suc j) =
     (if collides E proj (letters ! j) then Some j else scanLetters E proj letters j)"

text \<open>The body of the successful hit, for the projectile at \<open>i\<close> and the letter at \<open>j\<close>.\<close>

definition resolveHit :: "page \<Rightarrow> nat \<Rightarrow> nat \<Rightarrow> game \<Rightarrow> game" where
  "resolveHit E i j s =
     (let s1 = s\<lparr>score := Suc (score s),
                 projectiles := splice1 i (projectiles s),
                 fallingLetters := splice1 j (fallingLetters s)\<rparr>
      in if length (fallingLetters s1) = 0
         then scheduleNextLetter (createLetter E (clearTimeout (letterInterval s1) s1))
         else s1)"

text \<open>The element's \<open>top\<close> set to \<open>currentTop - PROJECTILE_SPEED\<close>.\<close>

definition moveProjectile :: "projectile \<Rightarrow> projectile" where
  "moveProjectile proj = proj\<lparr>proj_top := proj_top proj - PROJECTILE_SPEED\<rparr>"

text \<open>One iteration of the outer loop, for the projectile at index \<open>i\<close>.\<close>

definition projectileStep :: "page \<Rightarrow> nat \<Rightarrow> game \<Rightarrow> game" where
  "projectileStep E i s =
     (let currentTop = proj_top (projectiles s ! i);
          proj = moveProjectile (projectiles s ! i);
          s1 = s\<lparr>projectiles := (projectiles s)[i := proj]\<rparr>
      in case scanLetters E proj (fallingLetters s1) (length (fallingLetters s1)) of
           Some j \<Rightarrow> resolveHit E i j s1
         | None \<Rightarrow>
             if currentTop < 0 then s1\<lparr>projectiles := splice1 i (projectiles s1)\<rparr>
             else s1)"

fun updateProjectilesFrom :: "page \<Rightarrow> nat \<Rightarrow> game \<Rightarrow> game" where
  "updateProjectilesFrom E 0 s = s"
| "updateProjectilesFrom E (Suc i) s = updateProjectilesFrom E i (projectileStep E i s)"

definition updateProjectiles :: "page \<Rightarrow> game \<Rightarrow> game" where
  "updateProjectiles E s = updateProjectilesFrom E (length (projectiles s)) s"

definition updatePlayerPosition :: "page \<Rightarrow> game \<Rightarrow> game" where
  "updatePlayerPosition E s =
     (let p1 = (if isMovingLeft s then playerPosition s - PLAYER_SPEED else playerPosition s);
          p2 = (if isMovingRight s then p1 + PLAYER_SPEED else p1);
          p3 = (if p2 < 0 then 0 else p2);
          p4 = (if p3 > of_int (GAME_WIDTH E - PLAYER_WIDTH E)
                then of_int (GAME_WIDTH E - PLAYER_WIDTH E) else p3)
      in s\<lparr>playerPosition := p4\<rparr>)"

text \<open>One animation frame.\<close>

definition gameLoop :: "page \<Rightarrow> game \<Rightarrow> game" where
  "gameLoop E s =
     (if \<not> gameIsActive s then s
      else updateLetters E (updateKeyboardVisuals E (updateProjectiles E
             (updatePlayerPosition E s))))"

section \<open>Starting a session\<close>

definition startGame :: "page \<Rightarrow> difficulty \<Rightarrow> game \<Rightarrow> game" where
  "startGame E d s =
     (let st = DIFFICULTY_SETTINGS d;
          s1 = s\<lparr>initialFallSpeed := speed st,
                 fallSpeedIncreasePerScore := increase st,
                 initialSpawnInterval := spawn st,
                 score := 0,
                 playerPosition := of_int (GAME_WIDTH E - PLAYER_WIDTH E) / 2,
                 gameIsActive := True,
                 fallingLetters := [],
                 projectiles := [],
                 isMovingLeft := False,
                 isMovingRight := False\<rparr>
      in scheduleNextLetter (setupKeyboard s1))"

definition selectLanguage :: "language \<Rightarrow> game \<Rightarrow> game" where
  "selectLanguage lang s = s\<lparr>selectedLanguage := lang\<rparr>"

section \<open>Keyboard input\<close>

definition handleKeyPress :: "page \<Rightarrow> jsstring \<Rightarrow> game \<Rightarrow> game" where
  "handleKeyPress E key s =
     (if \<not> gameIsActive s then s
      else
        let s1 = (if key = js ''ArrowLeft'' then s\<lparr>isMovingLeft := True\<rparr>
                  else if key = js ''ArrowRight'' then s\<lparr>isMovingRight := True\<rparr>
                  else s);
            pressedKey = key
        in if length pressedKey = 1 \<and>
              (match_az_i pressedKey \<or> pressedKey \<in> set HEBREW_CHARACTERS)
           then createProjectile E (toLowerCase pressedKey) s1
           else s1)"

definition handleKeyUp :: "jsstring \<Rightarrow> game \<Rightarrow> game" where
  "handleKeyUp key s =
     (if key = js ''ArrowLeft'' then s\<lparr>isMovingLeft := False\<rparr>
      else if key = js ''ArrowRight'' then s\<lparr>isMovingRight := False\<rparr>
      else s)"

section \<open>Auxiliary notions and example states\<close>

text \<open>The proximities of the letters that carry the character \<open>c\<close>.\<close>

definition proximitiesOf :: "page \<Rightarrow> jsstring option \<Rightarrow> letter list \<Rightarrow> rat list" where
  "proximitiesOf E c letters =
     map (proximity E) (filter (\<lambda>l. letter_character l = c) letters)"


text \<open>
  A page of 800 by 600 pixels and an active session on the hard tier, with variants of its
  store, for the concrete instances below. The letters on the board were drawn before;
  every draw still to come yields \<open>1 / 2\<close>, that is the letter \<open>F\<close> at the left
  offset 380.
\<close>

definition example_page :: page where
  "example_page =
     \<lparr>GAME_WIDTH = 800, GAME_HEIGHT = 600, PLAYER_WIDTH = 100, PLAYER_HEIGHT = 50,
      LETTER_HEIGHT = 40, PROJECTILE_HEIGHT = 25, random = (\<lambda>n. 1 / 2)\<rparr>"

definition example_game :: game where
  "example_game =
     \<lparr>initialFallSpeed = 2, fallSpeedIncreasePerScore = double (1 / 20),
      initialSpawnInterval = 3000,
      score = 0, selectedLanguage = En, gameIsActive = True, playerPosition = 350,
      fallingLetters =
        [\<lparr>letter_character = Some (js ''A''), letter_y = 100, letter_left = 0, letter_top = 100\<rparr>,
         \<lparr>letter_character = Some (js ''A''), letter_y = 100, letter_left = 380, letter_top = 100\<rparr>],
      projectiles = [\<lparr>proj_character = js ''a'', proj_left = 775 / 2, proj_top = 130\<rparr>],
      keyboardMap = map (\<lambda>char. (char, Default)) ENGLISH_CHARACTERS,
      isMovingLeft = False, isMovingRight = False,
      letterInterval = Some 1, timers = [(1, 3000)], nextTimerId = 2, randomCalls = 0\<rparr>"

definition example_at_top :: game where
  "example_at_top =
     example_game\<lparr>projectiles := [\<lparr>proj_character = js ''a'', proj_left = 775 / 2, proj_top = 0\<rparr>]\<rparr>"

definition example_past_top :: game where
  "example_past_top =
     example_game\<lparr>projectiles := [\<lparr>proj_character = js ''a'', proj_left = 775 / 2, proj_top = - 10\<rparr>],
       fallingLetters :=
         [\<lparr>letter_character = Some (js ''A''), letter_y = 0, letter_left = 380, letter_top = 0\<rparr>]\<rparr>"

definition example_falling :: game where
  "example_falling =
     example_game\<lparr>projectiles := [],
       fallingLetters :=
         [\<lparr>letter_character = Some (js ''A''), letter_y = 98, letter_left = 0, letter_top = 98\<rparr>,
          \<lparr>letter_character = Some (js ''B''), letter_y = 598, letter_left = 380, letter_top = 598\<rparr>]\<rparr>"

definition example_losing :: game where
  "example_losing =
     example_game\<lparr>projectiles := [],
       fallingLetters :=
         [\<lparr>letter_character = Some (js ''A''), letter_y = 600, letter_left = 0, letter_top = 600\<rparr>,
          \<lparr>letter_character = Some (js ''B''), letter_y = 600, letter_left = 380, letter_top = 600\<rparr>,
          \<lparr>letter_character = Some (js ''C''), letter_y = 10, letter_left = 100, letter_top = 10\<rparr>]\<rparr>"

definition example_quiet :: game where
  "example_quiet = example_game\<lparr>projectiles := []\<rparr>"

definition example_over :: game where
  "example_over = endGame (example_game\<lparr>isMovingLeft := True\<rparr>)"

definition example_edge :: game where
  "example_edge =
     example_game\<lparr>initialFallSpeed := double (3 / 10),
       fallSpeedIncreasePerScore := double (1 / 20),
       initialSpawnInterval := 10000, score := 90, projectiles := [],
       timers := [(1, 9100)],
       fallingLetters :=
         [\<lparr>letter_character = Some (js ''A''), letter_y = double (2976 / 5),
           letter_left = 0, letter_top = 595\<rparr>]\<rparr>"

definition example_easy :: game where
  "example_easy =
     example_game\<lparr>initialFallSpeed := double (3 / 10),
       fallSpeedIncreasePerScore := double (1 / 20),
       initialSpawnInterval := 10000, projectiles := [], timers := [(1, 10000)],
       fallingLetters :=
         [\<lparr>letter_character = Some (js ''A''),
           letter_y = 6079859496950169 / 2251799813685248,
           letter_left = 0, letter_top = 2\<rparr>]\<rparr>"

text \<open>The iteration for the projectile at index \<open>i\<close> finds a letter and resolves a hit.\<close>

definition isHit :: "page \<Rightarrow> nat \<Rightarrow> game \<Rightarrow> bool" where
  "isHit E i s \<longleftrightarrow>
     i < length (projectiles s) \<and>
     scanLetters E (moveProjectile (projectiles s ! i)) (fallingLetters s)
       (length (fallingLetters s)) \<noteq> None"

text \<open>
  A run of iterations of the projectile loop, given by the indices of their projectiles,
  and the runs in which every iteration resolves a hit.
\<close>

definition runSteps :: "page \<Rightarrow> nat list \<Rightarrow> game \<Rightarrow> game" where
  "runSteps E is s = fold (projectileStep E) is s"

fun hitRun :: "page \<Rightarrow> nat list \<Rightarrow> game \<Rightarrow> bool" where
  "hitRun E [] s = True"
| "hitRun E (i # is) s = (isHit E i s \<and> hitRun E is (projectileStep E i s))"

definition example_pair :: game where
  "example_pair =
     example_game\<lparr>playerPosition := 0,
       fallingLetters :=
         [\<lparr>letter_character = Some (js ''A''), letter_y = 520, letter_left = 0, letter_top = 520\<rparr>,
          \<lparr>letter_character = Some (js ''A''), letter_y = 90, letter_left = 380, letter_top = 90\<rparr>],
       projectiles :=
         [\<lparr>proj_character = js ''a'', proj_left = 775 / 2, proj_top = 110\<rparr>,
          \<lparr>proj_character = js ''a'', proj_left = 75 / 2, proj_top = 550\<rparr>]\<rparr>"

section \<open>Properties of the operations\<close>

subsection \<open>Rounding\<close>

lemma powi_neg: "0 \<le> k \<Longrightarrow> (2::rat) powi (- k) = inverse (2 ^ nat k)"
  by (simp add: power_int_minus power_int_def inverse_eq_divide power_one_over)

lemma ilog2_bounds:
  assumes "0 < a"
  shows "2 powi (ilog2 a) \<le> a \<and> a < 2 powi (ilog2 a + 1)"
proof (cases "1 \<le> a")
  case True
  let ?n = "\<lfloor>a\<rfloor>"
  from True have n: "0 < ?n" by simp
  from bitlen_bounds [OF n]
  have b: "2 ^ nat (bitlen ?n - 1) \<le> ?n" "?n < 2 ^ nat (bitlen ?n)" by simp_all
  have pos: "1 \<le> bitlen ?n"
    using n by (simp add: bitlen_alt_def)
  have e: "ilog2 a = bitlen ?n - 1"
    using True by (simp add: ilog2_def)
  have "(2::rat) powi (bitlen ?n - 1) = of_int (2 ^ nat (bitlen ?n - 1))"
    using pos by (simp add: power_int_def)
  also have "\<dots> \<le> of_int ?n"
    using b(1) by (simp only: of_int_le_iff)
  also have "\<dots> \<le> a" by simp
  finally have lo: "2 powi (ilog2 a) \<le> a" by (simp add: e)
  have "?n + 1 \<le> 2 ^ nat (bitlen ?n)" using b(2) by simp
  then have "(of_int (?n + 1) :: rat) \<le> of_int (2 ^ nat (bitlen ?n))"
    by (simp only: of_int_le_iff)
  moreover have "a < of_int (?n + 1)" by simp linarith
  moreover have "(2::rat) powi (bitlen ?n - 1 + 1) = of_int (2 ^ nat (bitlen ?n))"
    using pos by (simp add: power_int_def)
  ultimately have "a < 2 powi (ilog2 a + 1)" by (simp add: e)
  with lo show ?thesis by simp
next
  case False
  let ?b = "1 / a"
  let ?m = "\<lceil>?b\<rceil> - 1"
  from False assms have b1: "1 < ?b" by simp
  then have m: "0 < ?m" by simp
  from bitlen_bounds [OF m]
  have b: "2 ^ nat (bitlen ?m - 1) \<le> ?m" "?m < 2 ^ nat (bitlen ?m)" by simp_all
  have pos: "1 \<le> bitlen ?m"
    using m by (simp add: bitlen_alt_def)
  have e: "ilog2 a = - bitlen ?m"
    using False by (simp add: ilog2_def)
  have "?b \<le> of_int \<lceil>?b\<rceil>" by (rule le_of_int_ceiling)
  also have "(of_int \<lceil>?b\<rceil> :: rat) \<le> of_int (2 ^ nat (bitlen ?m))"
    using b(2) by (simp only: of_int_le_iff)
  also have "\<dots> = 2 ^ nat (bitlen ?m)" by simp
  finally have up: "?b \<le> 2 ^ nat (bitlen ?m)" .
  have "(of_int (2 ^ nat (bitlen ?m - 1)) :: rat) \<le> of_int ?m"
    using b(1) by (simp only: of_int_le_iff)
  also have "of_int ?m < ?b"
    using ceiling_correct [of ?b] by simp
  finally have dn: "2 ^ nat (bitlen ?m - 1) < ?b" by simp
  have p: "(0::rat) < 2 ^ nat (bitlen ?m)" "(0::rat) < 2 ^ nat (bitlen ?m - 1)" by simp_all
  have "inverse (2 ^ nat (bitlen ?m)) \<le> a"
    using up assms p(1) by (simp add: field_simps)
  moreover have "(2::rat) powi (- bitlen ?m) = inverse (2 ^ nat (bitlen ?m))"
    using pos by (simp add: powi_neg)
  ultimately have lo: "2 powi (ilog2 a) \<le> a" by (simp add: e)
  have "a < inverse (2 ^ nat (bitlen ?m - 1))"
    using dn assms p(2) by (simp add: field_simps)
  moreover have "(2::rat) powi (- bitlen ?m + 1) = inverse (2 ^ nat (bitlen ?m - 1))"
  proof -
    have "- bitlen ?m + 1 = - (bitlen ?m - 1)" by simp
    then show ?thesis using pos by (simp only: powi_neg)
  qed
  ultimately have "a < 2 powi (ilog2 a + 1)" by (simp add: e)
  with lo show ?thesis by simp
qed

lemma roundHalfEven_error: "\<bar>of_int (roundHalfEven r) - r\<bar> \<le> 1 / 2"
proof -
  have "of_int \<lfloor>r\<rfloor> \<le> r" "r < of_int \<lfloor>r\<rfloor> + 1" by linarith+
  then show ?thesis
    unfolding roundHalfEven_def Let_def by (simp add: abs_if) linarith
qed

lemma roundHalfEven_nonneg: "0 \<le> r \<Longrightarrow> 0 \<le> roundHalfEven r"
  by (auto simp: roundHalfEven_def Let_def)

lemma quantum_pos: "0 < quantum a"
  by (simp add: quantum_def)

lemma double_nonneg: "0 \<le> x \<Longrightarrow> 0 \<le> double x"
  by (simp add: double_def roundHalfEven_nonneg quantum_pos less_imp_le)

text \<open>The relative error of one rounding in the normal range.\<close>

lemma double_error:
  assumes "1 / 4 \<le> x"
  shows "\<bar>double x - x\<bar> \<le> x / 2 ^ 53"
proof -
  from assms have x: "0 < x" by simp
  from ilog2_bounds [OF x] have lo: "2 powi (ilog2 x) \<le> x" and hi: "x < 2 powi (ilog2 x + 1)"
    by simp_all
  have "- 3 < ilog2 x"
  proof (rule ccontr)
    assume "\<not> - 3 < ilog2 x"
    then have "ilog2 x + 1 \<le> - 2" by simp
    then have "(2::rat) powi (ilog2 x + 1) \<le> 2 powi (- 2)"
      by (intro power_int_increasing) simp_all
    also have "\<dots> = 1 / 4" by (simp add: power_int_def power2_eq_square)
    finally show False using hi assms by simp
  qed
  then have q: "quantum x = 2 powi (ilog2 x - 52)"
    by (simp add: quantum_def)
  let ?q = "quantum x"
  have qpos: "0 < ?q" by (rule quantum_pos)
  have d: "double x = of_int (roundHalfEven (x / ?q)) * ?q"
    using x by (simp add: double_def)
  have "double x - x = (of_int (roundHalfEven (x / ?q)) - x / ?q) * ?q"
    using qpos by (simp add: d left_diff_distrib)
  then have "\<bar>double x - x\<bar> = \<bar>of_int (roundHalfEven (x / ?q)) - x / ?q\<bar> * ?q"
    using qpos by (simp only: abs_mult abs_of_pos)
  also have "\<dots> \<le> 1 / 2 * ?q"
    using roundHalfEven_error [of "x / ?q"] qpos by (intro mult_right_mono) simp_all
  also have "1 / 2 * ?q = 2 powi (ilog2 x) / 2 ^ 53"
    by (simp add: q power_int_diff)
  also have "\<dots> \<le> x / 2 ^ 53"
    using lo by (simp add: divide_right_mono)
  finally show ?thesis .
qed

lemma double_zero [simp]: "double 0 = 0"
  by (simp add: double_def)

text \<open>Small integers are doubles, and so are the rounded literals.\<close>

lemma double_ints:
  "double 1 = 1" "double 2 = 2" "double 12 = 12" "double 100 = 100" "double 102 = 102"
  "double 104 = 104" "double 600 = 600" "double 602 = 602"
  by code_simp+

lemma double_draws:
  "double 13 = 13" "double 380 = 380"
  by code_simp+

lemma double_literals:
  "double (double (3 / 10)) = double (3 / 10)" "29 / 100 < double (3 / 10)"
  "0 < double (1 / 20)" "0 < double (3 / 20)"
  by code_simp+

subsection \<open>The fall of the letters\<close>

lemma endGame_fields [simp]:
  "gameIsActive (endGame s) = False"
  "fallingLetters (endGame s) = fallingLetters s"
  "projectiles (endGame s) = projectiles s"
  "score (endGame s) = score s"
  "keyboardMap (endGame s) = map (\<lambda>(char, keyElement). (char, Default)) (keyboardMap s)"
  by (simp_all add: endGame_def clearTimeout_def Let_def split: option.splits)

lemma fallSpeed_letters [simp]:
  "fallSpeed (s\<lparr>fallingLetters := ls\<rparr>) = fallSpeed s"
  by (simp add: fallSpeed_def)

lemmas move_defs = moveLetter_def fadd_def double_ints

lemmas number_defs = fallSpeed_def fmul_def move_defs

text \<open>The letters at the indices below \<open>n\<close> that the loop reaches before it stops.\<close>

lemma updateLettersFrom_safe:
  "n \<le> length (fallingLetters s) \<Longrightarrow>
   \<forall>k<n. letter_y (moveLetter (fallSpeed s) (fallingLetters s ! k)) \<le> of_int (GAME_HEIGHT E) \<Longrightarrow>
   updateLettersFrom E n s =
     s\<lparr>fallingLetters := map (moveLetter (fallSpeed s)) (take n (fallingLetters s))
                             @ drop n (fallingLetters s)\<rparr>"
proof (induction n arbitrary: s)
  case 0
  then show ?case by simp
next
  case (Suc n)
  let ?ls = "fallingLetters s"
  let ?l = "moveLetter (fallSpeed s) (?ls ! n)"
  let ?s1 = "s\<lparr>fallingLetters := ?ls[n := ?l]\<rparr>"
  from Suc.prems have n: "n < length ?ls" by simp
  from Suc.prems have ok: "\<not> letter_y ?l > of_int (GAME_HEIGHT E)"
    by (simp add: not_less)
  have rest: "\<forall>k<n. letter_y (moveLetter (fallSpeed ?s1) (fallingLetters ?s1 ! k)) \<le> of_int (GAME_HEIGHT E)"
    using Suc.prems by simp
  have "updateLettersFrom E (Suc n) s = updateLettersFrom E n ?s1"
    using ok by (simp add: Let_def)
  also have "\<dots> = ?s1\<lparr>fallingLetters := map (moveLetter (fallSpeed ?s1)) (take n (fallingLetters ?s1))
                             @ drop n (fallingLetters ?s1)\<rparr>"
    using n rest by (intro Suc.IH) simp_all
  also have "\<dots> = s\<lparr>fallingLetters := map (moveLetter (fallSpeed s)) (take (Suc n) ?ls)
                             @ drop (Suc n) ?ls\<rparr>"
    using n by (simp add: take_Suc_conv_app_nth flip: Cons_nth_drop_Suc)
  finally show ?case .
qed

lemma updateLettersFrom_stop:
  "n \<le> length (fallingLetters s) \<Longrightarrow> k < n \<Longrightarrow>
   letter_y (moveLetter (fallSpeed s) (fallingLetters s ! k)) > of_int (GAME_HEIGHT E) \<Longrightarrow>
   \<forall>j. k < j \<and> j < n \<longrightarrow> letter_y (moveLetter (fallSpeed s) (fallingLetters s ! j)) \<le> of_int (GAME_HEIGHT E) \<Longrightarrow>
   updateLettersFrom E n s =
     endGame (s\<lparr>fallingLetters := take k (fallingLetters s)
                  @ map (moveLetter (fallSpeed s)) (drop k (take n (fallingLetters s)))
                  @ drop n (fallingLetters s)\<rparr>)"
proof (induction n arbitrary: s)
  case 0
  then show ?case by simp
next
  case (Suc n)
  let ?ls = "fallingLetters s"
  let ?l = "moveLetter (fallSpeed s) (?ls ! n)"
  let ?s1 = "s\<lparr>fallingLetters := ?ls[n := ?l]\<rparr>"
  from Suc.prems have n: "n < length ?ls" by simp
  show ?case
  proof (cases "k = n")
    case True
    then have "letter_y ?l > of_int (GAME_HEIGHT E)"
      using Suc.prems by simp
    then have "updateLettersFrom E (Suc n) s = endGame ?s1"
      by (simp add: Let_def)
    moreover have "?ls[n := ?l] = take k ?ls @ map (moveLetter (fallSpeed s)) (drop k (take (Suc n) ?ls))
                  @ drop (Suc n) ?ls"
      using n True by (simp add: take_Suc_conv_app_nth upd_conv_take_nth_drop)
    ultimately show ?thesis by simp
  next
    case False
    with Suc.prems have kn: "k < n" by simp
    from Suc.prems kn have ok: "\<not> letter_y ?l > of_int (GAME_HEIGHT E)"
      by (simp add: not_less)
    have "updateLettersFrom E (Suc n) s = updateLettersFrom E n ?s1"
      using ok by (simp add: Let_def)
    also have "\<dots> = endGame (?s1\<lparr>fallingLetters := take k (fallingLetters ?s1)
                  @ map (moveLetter (fallSpeed ?s1)) (drop k (take n (fallingLetters ?s1)))
                  @ drop n (fallingLetters ?s1)\<rparr>)"
      using n kn Suc.prems by (intro Suc.IH) simp_all
    also have "take k (fallingLetters ?s1)
                  @ map (moveLetter (fallSpeed ?s1)) (drop k (take n (fallingLetters ?s1)))
                  @ drop n (fallingLetters ?s1) = take k ?ls
                  @ map (moveLetter (fallSpeed s)) (drop k (take (Suc n) ?ls))
                  @ drop (Suc n) ?ls"
      using n kn by (simp add: take_Suc_conv_app_nth flip: Cons_nth_drop_Suc)
    finally show ?thesis by simp
  qed
qed

subsection \<open>The collision scan and the hit\<close>

lemma scanLetters_None:
  "scanLetters E p ls n = None \<longleftrightarrow> (\<forall>j<n. \<not> collides E p (ls ! j))"
  by (induction n) (auto simp: less_Suc_eq)

lemma scanLetters_Some:
  "scanLetters E p ls n = Some j \<longleftrightarrow>
     j < n \<and> collides E p (ls ! j) \<and> (\<forall>k. j < k \<and> k < n \<longrightarrow> \<not> collides E p (ls ! k))"
proof (induction n)
  case 0
  then show ?case by simp
next
  case (Suc n)
  show ?case
  proof (cases "collides E p (ls ! n)")
    case True
    then show ?thesis
      by (auto simp: less_Suc_eq)
  next
    case False
    then show ?thesis
      using Suc by (auto simp: less_Suc_eq)
  qed
qed

lemma scheduleNextLetter_active:
  "gameIsActive s \<Longrightarrow>
   scheduleNextLetter s =
     s\<lparr>timers := timers s @ [(nextTimerId s, nextInterval s)],
       nextTimerId := Suc (nextTimerId s),
       letterInterval := Some (nextTimerId s)\<rparr>"
  by (simp add: scheduleNextLetter_def setTimeout_def)

lemma scheduleNextLetter_fields [simp]:
  "score (scheduleNextLetter s) = score s"
  "gameIsActive (scheduleNextLetter s) = gameIsActive s"
  "fallingLetters (scheduleNextLetter s) = fallingLetters s"
  "projectiles (scheduleNextLetter s) = projectiles s"
  "keyboardMap (scheduleNextLetter s) = keyboardMap s"
  "randomCalls (scheduleNextLetter s) = randomCalls s"
  "selectedLanguage (scheduleNextLetter s) = selectedLanguage s"
  "initialFallSpeed (scheduleNextLetter s) = initialFallSpeed s"
  "fallSpeedIncreasePerScore (scheduleNextLetter s) = fallSpeedIncreasePerScore s"
  "initialSpawnInterval (scheduleNextLetter s) = initialSpawnInterval s"
  "playerPosition (scheduleNextLetter s) = playerPosition s"
  by (simp_all add: scheduleNextLetter_def setTimeout_def)

lemma createLetter_fields [simp]:
  "score (createLetter E s) = score s"
  "gameIsActive (createLetter E s) = gameIsActive s"
  "fallingLetters (createLetter E s) =
     fallingLetters s @ [newLetter E (selectedLanguage s) (randomCalls s)]"
  "projectiles (createLetter E s) = projectiles s"
  "keyboardMap (createLetter E s) = keyboardMap s"
  "randomCalls (createLetter E s) = Suc (Suc (randomCalls s))"
  "selectedLanguage (createLetter E s) = selectedLanguage s"
  "timers (createLetter E s) = timers s"
  "nextTimerId (createLetter E s) = nextTimerId s"
  "letterInterval (createLetter E s) = letterInterval s"
  "initialFallSpeed (createLetter E s) = initialFallSpeed s"
  "fallSpeedIncreasePerScore (createLetter E s) = fallSpeedIncreasePerScore s"
  "initialSpawnInterval (createLetter E s) = initialSpawnInterval s"
  "playerPosition (createLetter E s) = playerPosition s"
  by (simp_all add: createLetter_def)

lemma clearTimeout_fields [simp]:
  "score (clearTimeout t s) = score s"
  "gameIsActive (clearTimeout t s) = gameIsActive s"
  "fallingLetters (clearTimeout t s) = fallingLetters s"
  "projectiles (clearTimeout t s) = projectiles s"
  "keyboardMap (clearTimeout t s) = keyboardMap s"
  "randomCalls (clearTimeout t s) = randomCalls s"
  "selectedLanguage (clearTimeout t s) = selectedLanguage s"
  "nextTimerId (clearTimeout t s) = nextTimerId s"
  "letterInterval (clearTimeout t s) = letterInterval s"
  "initialFallSpeed (clearTimeout t s) = initialFallSpeed s"
  "fallSpeedIncreasePerScore (clearTimeout t s) = fallSpeedIncreasePerScore s"
  "initialSpawnInterval (clearTimeout t s) = initialSpawnInterval s"
  "playerPosition (clearTimeout t s) = playerPosition s"
  by (simp_all add: clearTimeout_def split: option.splits)

lemma resolveHit_fields [simp]:
  "score (resolveHit E i j s) = Suc (score s)"
  "gameIsActive (resolveHit E i j s) = gameIsActive s"
  "projectiles (resolveHit E i j s) = splice1 i (projectiles s)"
  "keyboardMap (resolveHit E i j s) = keyboardMap s"
  "selectedLanguage (resolveHit E i j s) = selectedLanguage s"
  "initialFallSpeed (resolveHit E i j s) = initialFallSpeed s"
  "fallSpeedIncreasePerScore (resolveHit E i j s) = fallSpeedIncreasePerScore s"
  "initialSpawnInterval (resolveHit E i j s) = initialSpawnInterval s"
  "playerPosition (resolveHit E i j s) = playerPosition s"
  by (simp_all add: resolveHit_def Let_def)

lemma resolveHit_letters:
  "fallingLetters (resolveHit E i j s) =
     (if splice1 j (fallingLetters s) = []
      then [newLetter E (selectedLanguage s) (randomCalls s)]
      else splice1 j (fallingLetters s))"
  by (simp add: resolveHit_def Let_def)

lemma length_splice1:
  "j < length xs \<Longrightarrow> length (splice1 j xs) = length xs - 1"
  by (simp add: splice1_def)

lemma splice1_Nil_iff:
  "j < length xs \<Longrightarrow> splice1 j xs = [] \<longleftrightarrow> length xs = 1"
  by (cases xs) (auto simp: splice1_def)

lemma resolveHit_cleared:
  assumes "gameIsActive s" "splice1 j (fallingLetters s) = []"
  shows "resolveHit E i j s =
     s\<lparr>score := Suc (score s),
       projectiles := splice1 i (projectiles s),
       fallingLetters := [newLetter E (selectedLanguage s) (randomCalls s)],
       randomCalls := Suc (Suc (randomCalls s)),
       timers := (case letterInterval s of None \<Rightarrow> timers s
                  | Some t \<Rightarrow> filter (\<lambda>p. fst p \<noteq> t) (timers s))
                 @ [(nextTimerId s,
                     max MIN_SPAWN_INTERVAL
                       (initialSpawnInterval s
                          - int (Suc (score s)) * SPAWN_INTERVAL_REDUCTION_PER_SCORE))],
       nextTimerId := Suc (nextTimerId s),
       letterInterval := Some (nextTimerId s)\<rparr>"
  using assms
  by (simp add: resolveHit_def Let_def scheduleNextLetter_active createLetter_def
      clearTimeout_def nextInterval_def split: option.splits)

lemma resolveHit_not_cleared:
  assumes "splice1 j (fallingLetters s) \<noteq> []"
  shows "resolveHit E i j s =
     s\<lparr>score := Suc (score s),
       projectiles := splice1 i (projectiles s),
       fallingLetters := splice1 j (fallingLetters s)\<rparr>"
  using assms by (simp add: resolveHit_def Let_def)

lemma projectileStep_hit:
  assumes "scanLetters E (moveProjectile (projectiles s ! i)) (fallingLetters s)
             (length (fallingLetters s)) = Some j"
  shows "projectileStep E i s =
           resolveHit E i j (s\<lparr>projectiles := (projectiles s)[i := moveProjectile (projectiles s ! i)]\<rparr>)"
  using assms by (simp add: projectileStep_def Let_def)

lemma projectileStep_miss:
  assumes "scanLetters E (moveProjectile (projectiles s ! i)) (fallingLetters s)
             (length (fallingLetters s)) = None"
  shows "projectileStep E i s =
           s\<lparr>projectiles :=
               (if proj_top (projectiles s ! i) < 0
                then splice1 i ((projectiles s)[i := moveProjectile (projectiles s ! i)])
                else (projectiles s)[i := moveProjectile (projectiles s ! i)])\<rparr>"
  using assms by (simp add: projectileStep_def Let_def)

lemma splice1_update [simp]: "splice1 i (xs[i := x]) = splice1 i xs"
  by (simp add: splice1_def)

lemma projectileStep_fields [simp]:
  "gameIsActive (projectileStep E i s) = gameIsActive s"
  "keyboardMap (projectileStep E i s) = keyboardMap s"
  "selectedLanguage (projectileStep E i s) = selectedLanguage s"
  "initialFallSpeed (projectileStep E i s) = initialFallSpeed s"
  "fallSpeedIncreasePerScore (projectileStep E i s) = fallSpeedIncreasePerScore s"
  "initialSpawnInterval (projectileStep E i s) = initialSpawnInterval s"
  "playerPosition (projectileStep E i s) = playerPosition s"
  by (simp_all add: projectileStep_def Let_def split: option.splits)

lemma updateProjectilesFrom_fields [simp]:
  "gameIsActive (updateProjectilesFrom E n s) = gameIsActive s"
  "keyboardMap (updateProjectilesFrom E n s) = keyboardMap s"
  "selectedLanguage (updateProjectilesFrom E n s) = selectedLanguage s"
  "initialFallSpeed (updateProjectilesFrom E n s) = initialFallSpeed s"
  "fallSpeedIncreasePerScore (updateProjectilesFrom E n s) = fallSpeedIncreasePerScore s"
  "initialSpawnInterval (updateProjectilesFrom E n s) = initialSpawnInterval s"
  "playerPosition (updateProjectilesFrom E n s) = playerPosition s"
  by (induction n arbitrary: s; simp)+

lemma resolveHit_nonempty: "fallingLetters (resolveHit E i j s) \<noteq> []"
  by (simp add: resolveHit_letters)

lemma projectileStep_nonempty:
  "fallingLetters s \<noteq> [] \<Longrightarrow> fallingLetters (projectileStep E i s) \<noteq> []"
  by (simp add: projectileStep_def Let_def resolveHit_nonempty split: option.splits)

lemma updateProjectilesFrom_nonempty:
  "fallingLetters s \<noteq> [] \<Longrightarrow> fallingLetters (updateProjectilesFrom E n s) \<noteq> []"
  by (induction n arbitrary: s) (simp_all add: projectileStep_nonempty)

text \<open>A frame in which no projectile meets a letter.\<close>

lemma updateProjectilesFrom_no_collision:
  assumes "n \<le> length (projectiles s)"
    and "\<forall>k<n. \<forall>l\<in>set (fallingLetters s). \<not> collides E (moveProjectile (projectiles s ! k)) l"
  shows "updateProjectilesFrom E n s =
           s\<lparr>projectiles :=
               map moveProjectile (filter (\<lambda>p. \<not> proj_top p < 0) (take n (projectiles s)))
               @ drop n (projectiles s)\<rparr>"
  using assms
proof (induction n arbitrary: s)
  case 0
  then show ?case by simp
next
  case (Suc n)
  let ?ps = "projectiles s"
  let ?p = "moveProjectile (?ps ! n)"
  let ?X = "if proj_top (?ps ! n) < 0 then [] else [?p]"
  let ?s1 = "s\<lparr>projectiles := take n ?ps @ ?X @ drop (Suc n) ?ps\<rparr>"
  from Suc.prems have n: "n < length ?ps" by simp
  have "scanLetters E ?p (fallingLetters s) (length (fallingLetters s)) = None"
    using Suc.prems by (simp add: scanLetters_None)
  then have step: "projectileStep E n s = ?s1"
    using n by (simp add: projectileStep_miss splice1_def upd_conv_take_nth_drop)
  have "updateProjectilesFrom E n ?s1 =
          ?s1\<lparr>projectiles :=
               map moveProjectile (filter (\<lambda>p. \<not> proj_top p < 0) (take n (projectiles ?s1)))
               @ drop n (projectiles ?s1)\<rparr>"
  proof (rule Suc.IH)
    show "n \<le> length (projectiles ?s1)" using n by simp
    show "\<forall>k<n. \<forall>l\<in>set (fallingLetters ?s1).
            \<not> collides E (moveProjectile (projectiles ?s1 ! k)) l"
      using Suc.prems n by (simp add: nth_append)
  qed
  also have "\<dots> = s\<lparr>projectiles :=
               map moveProjectile (filter (\<lambda>p. \<not> proj_top p < 0) (take (Suc n) ?ps))
               @ drop (Suc n) ?ps\<rparr>"
    using n by (simp add: take_Suc_conv_app_nth)
  finally show ?case using step by simp
qed

lemma updateProjectiles_empty:
  "projectiles s = [] \<Longrightarrow> updateProjectiles E s = s"
  by (simp add: updateProjectiles_def)

subsection \<open>The proximity map\<close>

lemma proximitiesOf_simps [simp]:
  "proximitiesOf E c [] = []"
  "proximitiesOf E c (l # ls) =
     (if letter_character l = c then proximity E l # proximitiesOf E c ls
      else proximitiesOf E c ls)"
  by (simp_all add: proximitiesOf_def)

lemma fold_proximityStep:
  "fold (proximityStep E) ls m c =
     (case m c of
        None \<Rightarrow> if proximitiesOf E c ls = [] then None
                else Some (Max (set (proximitiesOf E c ls)))
      | Some v \<Rightarrow> Some (Max (set (v # proximitiesOf E c ls))))"
proof (induction ls arbitrary: m)
  case Nil
  then show ?case by (simp split: option.splits)
next
  case (Cons l ls)
  show ?case
  proof (cases "letter_character l = c")
    case False
    then have "proximityStep E l m c = m c"
      by (simp add: proximityStep_def Let_def split: option.splits)
    with False show ?thesis
      by (simp add: Cons.IH split: option.splits)
  next
    case True
    show ?thesis
    proof (cases "m c")
      case None
      with True have "proximityStep E l m c = Some (proximity E l)"
        by (simp add: proximityStep_def Let_def)
      with True None show ?thesis
        by (simp add: Cons.IH)
    next
      case (Some v)
      with True have "proximityStep E l m c = Some (max v (proximity E l))"
        by (auto simp: proximityStep_def Let_def max_def)
      with True Some show ?thesis
        by (cases "proximitiesOf E c ls = []")
           (simp_all add: Cons.IH max.commute max.left_commute max.assoc)
    qed
  qed
qed

lemma proximityMap_eq:
  "proximityMap E ls c =
     (if proximitiesOf E c ls = [] then None else Some (Max (set (proximitiesOf E c ls))))"
  by (simp add: proximityMap_def fold_proximityStep)

lemma proximitiesOf_Nil_iff:
  "proximitiesOf E c ls = [] \<longleftrightarrow> (\<forall>l\<in>set ls. letter_character l \<noteq> c)"
  by (simp add: proximitiesOf_def filter_empty_conv)

lemma keyStyle_proximityMap:
  "keyStyle (proximityMap E ls) char =
     (if \<exists>l\<in>set ls. letter_character l = Some char
      then Hsl (70 - 25 * min (Max (set (proximitiesOf E (Some char) ls))) 1)
      else Default)"
  by (auto simp add: keyStyle_def proximityMap_eq proximitiesOf_Nil_iff Let_def)

subsection \<open>The letter that ends the session\<close>

lemma last_offender:
  fixes P :: "nat \<Rightarrow> bool"
  shows "(\<forall>k<n. \<not> P k) \<or> (\<exists>k<n. P k \<and> (\<forall>j. k < j \<and> j < n \<longrightarrow> \<not> P j))"
proof (induction n)
  case 0
  then show ?case by simp
next
  case (Suc n)
  show ?case
  proof (cases "P n")
    case True
    then have "n < Suc n \<and> P n \<and> (\<forall>j. n < j \<and> j < Suc n \<longrightarrow> \<not> P j)" by auto
    then show ?thesis by blast
  next
    case False
    from Suc show ?thesis
    proof
      assume "\<forall>k<n. \<not> P k"
      with False show ?thesis by (auto simp: less_Suc_eq)
    next
      assume "\<exists>k<n. P k \<and> (\<forall>j. k < j \<and> j < n \<longrightarrow> \<not> P j)"
      then obtain k where "k < n" "P k" "\<forall>j. k < j \<and> j < n \<longrightarrow> \<not> P j" by blast
      with False have "k < Suc n \<and> P k \<and> (\<forall>j. k < j \<and> j < Suc n \<longrightarrow> \<not> P j)"
        by (auto simp: less_Suc_eq)
      then show ?thesis by blast
    qed
  qed
qed

lemma updateLetters_safe:
  assumes "\<forall>l\<in>set (fallingLetters s). letter_y (moveLetter (fallSpeed s) l) \<le> of_int (GAME_HEIGHT E)"
  shows "updateLetters E s = s\<lparr>fallingLetters := map (moveLetter (fallSpeed s)) (fallingLetters s)\<rparr>"
  using assms updateLettersFrom_safe [of "length (fallingLetters s)" s E]
  by (simp add: updateLetters_def)

lemma updateLetters_stop:
  assumes "k < length (fallingLetters s)"
    and "letter_y (moveLetter (fallSpeed s) (fallingLetters s ! k)) > of_int (GAME_HEIGHT E)"
    and "\<forall>j. k < j \<and> j < length (fallingLetters s) \<longrightarrow>
           letter_y (moveLetter (fallSpeed s) (fallingLetters s ! j)) \<le> of_int (GAME_HEIGHT E)"
  shows "updateLetters E s =
           endGame (s\<lparr>fallingLetters := take k (fallingLetters s)
                        @ map (moveLetter (fallSpeed s)) (drop k (fallingLetters s))\<rparr>)"
  using assms updateLettersFrom_stop [of "length (fallingLetters s)" s k E]
  by (simp add: updateLetters_def)

lemma updateLetters_unsafe:
  assumes "\<not> (\<forall>l\<in>set (fallingLetters s). letter_y (moveLetter (fallSpeed s) l) \<le> of_int (GAME_HEIGHT E))"
  shows "\<exists>k<length (fallingLetters s). updateLetters E s =
           endGame (s\<lparr>fallingLetters := take k (fallingLetters s)
                        @ map (moveLetter (fallSpeed s)) (drop k (fallingLetters s))\<rparr>)"
proof -
  let ?P = "\<lambda>k. letter_y (moveLetter (fallSpeed s) (fallingLetters s ! k)) > of_int (GAME_HEIGHT E)"
  from assms have "\<not> (\<forall>k<length (fallingLetters s). \<not> ?P k)"
    by (auto simp: in_set_conv_nth not_le)
  with last_offender [of "length (fallingLetters s)" ?P]
  obtain k where k: "k < length (fallingLetters s)" "?P k"
      "\<forall>j. k < j \<and> j < length (fallingLetters s) \<longrightarrow> \<not> ?P j"
    by blast
  then have "updateLetters E s =
           endGame (s\<lparr>fallingLetters := take k (fallingLetters s)
                        @ map (moveLetter (fallSpeed s)) (drop k (fallingLetters s))\<rparr>)"
    by (intro updateLetters_stop) (simp_all add: not_less)
  with k show ?thesis by blast
qed

lemma updateLetters_active:
  "gameIsActive (updateLetters E s) \<longleftrightarrow>
     gameIsActive s \<and> (\<forall>l\<in>set (fallingLetters s). letter_y (moveLetter (fallSpeed s) l) \<le> of_int (GAME_HEIGHT E))"
proof (cases "\<forall>l\<in>set (fallingLetters s). letter_y (moveLetter (fallSpeed s) l) \<le> of_int (GAME_HEIGHT E)")
  case True
  then show ?thesis by (simp add: updateLetters_safe)
next
  case False
  from updateLetters_unsafe [OF False] False show ?thesis by auto
qed

subsection \<open>The animation frame\<close>

lemma updatePlayerPosition_fields [simp]:
  "gameIsActive (updatePlayerPosition E s) = gameIsActive s"
  "keyboardMap (updatePlayerPosition E s) = keyboardMap s"
  "fallingLetters (updatePlayerPosition E s) = fallingLetters s"
  "projectiles (updatePlayerPosition E s) = projectiles s"
  "score (updatePlayerPosition E s) = score s"
  "initialFallSpeed (updatePlayerPosition E s) = initialFallSpeed s"
  "fallSpeedIncreasePerScore (updatePlayerPosition E s) = fallSpeedIncreasePerScore s"
  by (simp_all add: updatePlayerPosition_def Let_def)

lemma updateKeyboardVisuals_fields [simp]:
  "gameIsActive (updateKeyboardVisuals E s) = gameIsActive s"
  "fallingLetters (updateKeyboardVisuals E s) = fallingLetters s"
  "projectiles (updateKeyboardVisuals E s) = projectiles s"
  "score (updateKeyboardVisuals E s) = score s"
  "initialFallSpeed (updateKeyboardVisuals E s) = initialFallSpeed s"
  "fallSpeedIncreasePerScore (updateKeyboardVisuals E s) = fallSpeedIncreasePerScore s"
  "keyboardMap (updateKeyboardVisuals E s) =
     map (\<lambda>(char, keyElement). (char, keyStyle (proximityMap E (fallingLetters s)) char))
       (keyboardMap s)"
  by (simp_all add: updateKeyboardVisuals_def Let_def)

lemma fallSpeed_cong:
  "initialFallSpeed s' = initialFallSpeed s \<Longrightarrow>
   fallSpeedIncreasePerScore s' = fallSpeedIncreasePerScore s \<Longrightarrow>
   score s' = score s \<Longrightarrow> fallSpeed s' = fallSpeed s"
  by (simp add: fallSpeed_def)

lemma updateProjectiles_fields [simp]:
  "gameIsActive (updateProjectiles E s) = gameIsActive s"
  "keyboardMap (updateProjectiles E s) = keyboardMap s"
  "initialFallSpeed (updateProjectiles E s) = initialFallSpeed s"
  "fallSpeedIncreasePerScore (updateProjectiles E s) = fallSpeedIncreasePerScore s"
  by (simp_all add: updateProjectiles_def)

lemma gameLoop_inactive: "\<not> gameIsActive s \<Longrightarrow> gameLoop E s = s"
  by (simp add: gameLoop_def)

lemma gameLoop_active:
  "gameIsActive s \<Longrightarrow>
   gameLoop E s = updateLetters E (updateKeyboardVisuals E (updateProjectiles E
             (updatePlayerPosition E s)))"
  by (simp add: gameLoop_def)

text \<open>The frame, seen from the state in which the keys are coloured.\<close>

lemma gameLoop_keyboardMap:
  assumes "gameIsActive s"
  shows "keyboardMap (gameLoop E s) =
     (if gameIsActive (gameLoop E s)
      then map (\<lambda>(char, keyElement).
                 (char, keyStyle (proximityMap E
                    (fallingLetters (updateProjectiles E (updatePlayerPosition E s)))) char))
             (keyboardMap s)
      else map (\<lambda>(char, keyElement). (char, Default)) (keyboardMap s))"
proof -
  let ?s2 = "updateProjectiles E (updatePlayerPosition E s)"
  let ?s3 = "updateKeyboardVisuals E ?s2"
  have loop: "gameLoop E s = updateLetters E ?s3"
    using assms by (rule gameLoop_active)
  have act: "gameIsActive ?s3"
    using assms by simp
  show ?thesis
  proof (cases "\<forall>l\<in>set (fallingLetters ?s3). letter_y (moveLetter (fallSpeed ?s3) l) \<le> of_int (GAME_HEIGHT E)")
    case True
    then have "updateLetters E ?s3 =
        ?s3\<lparr>fallingLetters := map (moveLetter (fallSpeed ?s3)) (fallingLetters ?s3)\<rparr>"
      by (rule updateLetters_safe)
    then show ?thesis using act by (simp add: loop)
  next
    case False
    from updateLetters_unsafe [OF False]
    obtain k where "updateLetters E ?s3 =
        endGame (?s3\<lparr>fallingLetters := take k (fallingLetters ?s3)
                        @ map (moveLetter (fallSpeed ?s3)) (drop k (fallingLetters ?s3))\<rparr>)"
      by blast
    then show ?thesis
      by (simp add: loop split_beta)
  qed
qed

lemma gameLoop_letters:
  assumes "gameIsActive s" "gameIsActive (gameLoop E s)"
  shows "fallingLetters (gameLoop E s) =
           map (moveLetter (fallSpeed (updateProjectiles E (updatePlayerPosition E s))))
             (fallingLetters (updateProjectiles E (updatePlayerPosition E s)))"
proof -
  let ?s3 = "updateKeyboardVisuals E (updateProjectiles E (updatePlayerPosition E s))"
  from assms have "gameIsActive (updateLetters E ?s3)"
    by (simp add: gameLoop_active)
  then have "\<forall>l\<in>set (fallingLetters ?s3). letter_y (moveLetter (fallSpeed ?s3) l) \<le> of_int (GAME_HEIGHT E)"
    using updateLetters_active [of E ?s3] by blast
  then have "updateLetters E ?s3 = ?s3\<lparr>fallingLetters := map (moveLetter (fallSpeed ?s3)) (fallingLetters ?s3)\<rparr>"
    by (rule updateLetters_safe)
  moreover have "fallSpeed ?s3 = fallSpeed (updateProjectiles E (updatePlayerPosition E s))"
    by (rule fallSpeed_cong) simp_all
  ultimately show ?thesis using assms by (simp add: gameLoop_active)
qed

lemma newLetter_example:
  "newLetter example_page En n =
     \<lparr>letter_character = Some (js ''F''), letter_y = 0, letter_left = 380, letter_top = 0\<rparr>"
  by (simp add: newLetter_def example_page_def pick_def ENGLISH_CHARACTERS_def
      ENGLISH_KEYBOARD_LAYOUT_def split_chars_def js_def LETTER_WIDTH_def Let_def
      fmul_def double_draws)

lemma projectileStep_cleared:
  assumes "gameIsActive s" "i < length (projectiles s)" "fallingLetters s = [l]"
    and "collides E (moveProjectile (projectiles s ! i)) l"
  shows "projectileStep E i s =
     s\<lparr>score := Suc (score s),
       projectiles := splice1 i (projectiles s),
       fallingLetters := [newLetter E (selectedLanguage s) (randomCalls s)],
       randomCalls := Suc (Suc (randomCalls s)),
       timers := (case letterInterval s of None \<Rightarrow> timers s
                  | Some t \<Rightarrow> filter (\<lambda>p. fst p \<noteq> t) (timers s))
                 @ [(nextTimerId s,
                     max MIN_SPAWN_INTERVAL
                       (initialSpawnInterval s
                          - int (Suc (score s)) * SPAWN_INTERVAL_REDUCTION_PER_SCORE))],
       nextTimerId := Suc (nextTimerId s),
       letterInterval := Some (nextTimerId s)\<rparr>"
proof -
  let ?s1 = "s\<lparr>projectiles := (projectiles s)[i := moveProjectile (projectiles s ! i)]\<rparr>"
  have "scanLetters E (moveProjectile (projectiles s ! i)) (fallingLetters s)
               (length (fallingLetters s)) = Some 0"
    using assms by simp
  then have "projectileStep E i s = resolveHit E i 0 ?s1"
    by (rule projectileStep_hit)
  moreover have "resolveHit E i 0 ?s1 =
     ?s1\<lparr>score := Suc (score ?s1),
       projectiles := splice1 i (projectiles ?s1),
       fallingLetters := [newLetter E (selectedLanguage ?s1) (randomCalls ?s1)],
       randomCalls := Suc (Suc (randomCalls ?s1)),
       timers := (case letterInterval ?s1 of None \<Rightarrow> timers ?s1
                  | Some t \<Rightarrow> filter (\<lambda>p. fst p \<noteq> t) (timers ?s1))
                 @ [(nextTimerId ?s1,
                     max MIN_SPAWN_INTERVAL
                       (initialSpawnInterval ?s1
                          - int (Suc (score ?s1)) * SPAWN_INTERVAL_REDUCTION_PER_SCORE))],
       nextTimerId := Suc (nextTimerId ?s1),
       letterInterval := Some (nextTimerId ?s1)\<rparr>"
    using assms by (intro resolveHit_cleared) (simp_all add: splice1_def)
  ultimately show ?thesis by (simp split: option.splits)
qed

subsection \<open>Frames without projectiles\<close>

lemma example_fallSpeed:
  "fallSpeed example_falling = 2" "fallSpeed example_losing = 2"
  by (simp_all add: number_defs example_falling_def example_losing_def example_game_def)

lemma endGame_more_fields [simp]:
  "initialFallSpeed (endGame s) = initialFallSpeed s"
  "fallSpeedIncreasePerScore (endGame s) = fallSpeedIncreasePerScore s"
  by (simp_all add: endGame_def clearTimeout_def Let_def split: option.splits)

lemma updateLettersFrom_fields [simp]:
  "score (updateLettersFrom E n s) = score s"
  "projectiles (updateLettersFrom E n s) = projectiles s"
  "initialFallSpeed (updateLettersFrom E n s) = initialFallSpeed s"
  "fallSpeedIncreasePerScore (updateLettersFrom E n s) = fallSpeedIncreasePerScore s"
  by (induction n arbitrary: s; simp add: Let_def)+

lemma updateLetters_fields [simp]:
  "score (updateLetters E s) = score s"
  "projectiles (updateLetters E s) = projectiles s"
  "initialFallSpeed (updateLetters E s) = initialFallSpeed s"
  "fallSpeedIncreasePerScore (updateLetters E s) = fallSpeedIncreasePerScore s"
  by (simp_all add: updateLetters_def)

lemma letter_y_moveLetter: "letter_y (moveLetter v l) = double (letter_y l + v)"
  by (simp add: moveLetter_def fadd_def)

text \<open>A frame without projectiles that leaves the session active.\<close>

lemma gameLoop_quiet:
  assumes "gameIsActive s" "projectiles s = []" "gameIsActive (gameLoop E s)"
  shows "fallingLetters (gameLoop E s) = map (moveLetter (fallSpeed s)) (fallingLetters s)"
    and "projectiles (gameLoop E s) = []"
    and "score (gameLoop E s) = score s"
    and "initialFallSpeed (gameLoop E s) = initialFallSpeed s"
    and "fallSpeedIncreasePerScore (gameLoop E s) = fallSpeedIncreasePerScore s"
proof -
  have s2: "updateProjectiles E (updatePlayerPosition E s) = updatePlayerPosition E s"
    using assms(2) by (simp add: updateProjectiles_empty)
  have "fallSpeed (updatePlayerPosition E s) = fallSpeed s"
    by (rule fallSpeed_cong) simp_all
  with gameLoop_letters [OF assms(1,3)] s2
  show "fallingLetters (gameLoop E s) = map (moveLetter (fallSpeed s)) (fallingLetters s)"
    by simp
  show "projectiles (gameLoop E s) = []" "score (gameLoop E s) = score s"
    "initialFallSpeed (gameLoop E s) = initialFallSpeed s"
    "fallSpeedIncreasePerScore (gameLoop E s) = fallSpeedIncreasePerScore s"
    using assms(1,2) by (simp_all add: gameLoop_active s2)
qed

lemma gameLoop_iter_inactive:
  "\<not> gameIsActive s \<Longrightarrow> (gameLoop E ^^ n) s = s"
  by (induction n) (simp_all add: gameLoop_inactive)

lemma gameLoop_iter_active:
  assumes "gameIsActive ((gameLoop E ^^ n) s)" "k \<le> n"
  shows "gameIsActive ((gameLoop E ^^ k) s)"
proof (rule ccontr)
  assume "\<not> gameIsActive ((gameLoop E ^^ k) s)"
  then have "(gameLoop E ^^ (n - k)) ((gameLoop E ^^ k) s) = (gameLoop E ^^ k) s"
    by (rule gameLoop_iter_inactive)
  moreover have "(gameLoop E ^^ (n - k)) ((gameLoop E ^^ k) s) = (gameLoop E ^^ n) s"
    using assms(2) by (simp flip: funpow_add [THEN fun_cong, simplified])
  ultimately show False
    using assms(1) \<open>\<not> gameIsActive ((gameLoop E ^^ k) s)\<close> by simp
qed

lemma gameLoop_iter_quiet:
  assumes "projectiles s = []" "gameIsActive ((gameLoop E ^^ n) s)"
  shows "projectiles ((gameLoop E ^^ n) s) = [] \<and>
         score ((gameLoop E ^^ n) s) = score s \<and>
         initialFallSpeed ((gameLoop E ^^ n) s) = initialFallSpeed s \<and>
         fallSpeedIncreasePerScore ((gameLoop E ^^ n) s) = fallSpeedIncreasePerScore s"
  using assms
proof (induction n)
  case 0
  then show ?case by simp
next
  case (Suc n)
  let ?t = "(gameLoop E ^^ n) s"
  have act: "gameIsActive ?t"
    using Suc.prems(2) by (rule gameLoop_iter_active) simp
  with Suc have ih: "projectiles ?t = [] \<and> score ?t = score s \<and>
         initialFallSpeed ?t = initialFallSpeed s \<and>
         fallSpeedIncreasePerScore ?t = fallSpeedIncreasePerScore s"
    by blast
  have act': "gameIsActive (gameLoop E ?t)"
    using Suc.prems(2) by simp
  from gameLoop_quiet(2-5) [OF act _ act'] ih show ?case
    by simp
qed

lemma fallSpeed_visuals [simp]:
  "fallSpeed (updateKeyboardVisuals E s) = fallSpeed s"
  "fallSpeed (updatePlayerPosition E s) = fallSpeed s"
  by (rule fallSpeed_cong; simp)+

lemma gameLoop_quiet_eq:
  assumes "gameIsActive s" "projectiles s = []"
  shows "gameLoop E s = updateLetters E (updateKeyboardVisuals E (updatePlayerPosition E s))"
  using assms by (simp add: gameLoop_active updateProjectiles_empty)

lemma gameLoop_quiet_active:
  assumes "gameIsActive s" "projectiles s = []"
  shows "gameIsActive (gameLoop E s) \<longleftrightarrow>
           (\<forall>l\<in>set (fallingLetters s). letter_y (moveLetter (fallSpeed s) l) \<le> of_int (GAME_HEIGHT E))"
  using assms by (simp add: gameLoop_quiet_eq updateLetters_active)

lemma gameLoop_quiet_stop:
  assumes "gameIsActive s" "projectiles s = []" "k < length (fallingLetters s)"
    and "letter_y (moveLetter (fallSpeed s) (fallingLetters s ! k)) > of_int (GAME_HEIGHT E)"
    and "\<forall>j. k < j \<and> j < length (fallingLetters s) \<longrightarrow>
           letter_y (moveLetter (fallSpeed s) (fallingLetters s ! j)) \<le> of_int (GAME_HEIGHT E)"
  shows "fallingLetters (gameLoop E s) =
           take k (fallingLetters s) @ map (moveLetter (fallSpeed s)) (drop k (fallingLetters s))"
proof -
  let ?s3 = "updateKeyboardVisuals E (updatePlayerPosition E s)"
  have "updateLetters E ?s3 =
           endGame (?s3\<lparr>fallingLetters := take k (fallingLetters ?s3)
                        @ map (moveLetter (fallSpeed ?s3)) (drop k (fallingLetters ?s3))\<rparr>)"
    using assms(3-5) by (intro updateLetters_stop) simp_all
  then show ?thesis
    using assms(1,2) by (simp add: gameLoop_quiet_eq)
qed

lemma example_page_fields:
  "GAME_WIDTH example_page = 800" "GAME_HEIGHT example_page = 600"
  "PLAYER_WIDTH example_page = 100" "PLAYER_HEIGHT example_page = 50"
  "LETTER_HEIGHT example_page = 40" "PROJECTILE_HEIGHT example_page = 25"
  "random example_page n = 1 / 2"
  by (simp_all add: example_page_def)

lemma example_losing_facts:
  "gameIsActive example_losing" "projectiles example_losing = []"
  "fallingLetters example_losing =
         [\<lparr>letter_character = Some (js ''A''), letter_y = 600, letter_left = 0, letter_top = 600\<rparr>,
          \<lparr>letter_character = Some (js ''B''), letter_y = 600, letter_left = 380, letter_top = 600\<rparr>,
          \<lparr>letter_character = Some (js ''C''), letter_y = 10, letter_left = 100, letter_top = 10\<rparr>]"
  by (simp_all add: example_losing_def example_game_def)

lemma example_quiet_facts:
  "gameIsActive example_quiet" "projectiles example_quiet = []"
  "fallSpeed example_quiet = 2"
  "fallingLetters example_quiet =
        [\<lparr>letter_character = Some (js ''A''), letter_y = 100, letter_left = 0, letter_top = 100\<rparr>,
         \<lparr>letter_character = Some (js ''A''), letter_y = 100, letter_left = 380, letter_top = 100\<rparr>]"
  "initialFallSpeed example_quiet = 2"
  "fallSpeedIncreasePerScore example_quiet = double (1 / 20)"
  "score example_quiet = 0"
  by (simp_all add: example_quiet_def example_game_def number_defs)

lemma example_quiet_step:
  "gameIsActive (gameLoop example_page example_quiet)"
  "fallingLetters (gameLoop example_page example_quiet) =
        [\<lparr>letter_character = Some (js ''A''), letter_y = 102, letter_left = 0, letter_top = 102\<rparr>,
         \<lparr>letter_character = Some (js ''A''), letter_y = 102, letter_left = 380, letter_top = 102\<rparr>]"
proof -
  show a: "gameIsActive (gameLoop example_page example_quiet)"
    by (simp add: gameLoop_quiet_active example_quiet_facts example_page_fields
        moveLetter_def fadd_def double_ints)
  show "fallingLetters (gameLoop example_page example_quiet) =
        [\<lparr>letter_character = Some (js ''A''), letter_y = 102, letter_left = 0, letter_top = 102\<rparr>,
         \<lparr>letter_character = Some (js ''A''), letter_y = 102, letter_left = 380, letter_top = 102\<rparr>]"
    using gameLoop_quiet(1) [OF example_quiet_facts(1,2) a]
    by (simp add: example_quiet_facts move_defs)
qed

subsection \<open>Keys and sessions\<close>

lemma map_of_restyle:
  "map_of (map (\<lambda>(char, keyElement). (char, f char)) m) k =
     map_option (\<lambda>keyElement. f k) (map_of m k)"
  by (induction m) auto

lemma map_of_updateKeyboardVisuals:
  "map_of (keyboardMap (updateKeyboardVisuals E s)) k =
     map_option (\<lambda>keyElement. keyStyle (proximityMap E (fallingLetters s)) k)
       (map_of (keyboardMap s) k)"
  by (simp add: map_of_restyle)

lemma example_keyboard:
  "map_of (keyboardMap example_game) (js ''A'') = Some Default"
  "map_of (keyboardMap example_game) (js ''B'') = Some Default"
  "map_of (keyboardMap example_game) (js ''C'') = Some Default"
  by (simp_all add: example_game_def ENGLISH_CHARACTERS_def ENGLISH_KEYBOARD_LAYOUT_def
      split_chars_def js_def)

lemma example_falling_facts:
  "gameIsActive example_falling" "projectiles example_falling = []"
  "fallingLetters example_falling =
         [\<lparr>letter_character = Some (js ''A''), letter_y = 98, letter_left = 0, letter_top = 98\<rparr>,
          \<lparr>letter_character = Some (js ''B''), letter_y = 598, letter_left = 380, letter_top = 598\<rparr>]"
  "keyboardMap example_falling = keyboardMap example_game"
  by (simp_all add: example_falling_def example_game_def)

lemma example_falling_step:
  "gameIsActive (gameLoop example_page example_falling)"
  "fallingLetters (gameLoop example_page example_falling) =
         [\<lparr>letter_character = Some (js ''A''), letter_y = 100, letter_left = 0, letter_top = 100\<rparr>,
          \<lparr>letter_character = Some (js ''B''), letter_y = 600, letter_left = 380, letter_top = 600\<rparr>]"
proof -
  show a: "gameIsActive (gameLoop example_page example_falling)"
    by (simp add: gameLoop_quiet_active example_falling_facts example_fallSpeed
        example_page_fields moveLetter_def fadd_def double_ints)
  show "fallingLetters (gameLoop example_page example_falling) =
         [\<lparr>letter_character = Some (js ''A''), letter_y = 100, letter_left = 0, letter_top = 100\<rparr>,
          \<lparr>letter_character = Some (js ''B''), letter_y = 600, letter_left = 380, letter_top = 600\<rparr>]"
    using gameLoop_quiet(1) [OF example_falling_facts(1,2) a]
    by (simp add: example_falling_facts example_fallSpeed move_defs)
qed

lemma example_styles:
  "keyStyle (proximityMap example_page (fallingLetters example_falling)) (js ''A'') = Hsl (525 / 8)"
  "keyStyle (proximityMap example_page (fallingLetters example_falling)) (js ''B'') = Hsl 45"
  "keyStyle (proximityMap example_page (fallingLetters example_falling)) (js ''C'') = Default"
  "keyStyle (proximityMap example_page (fallingLetters (gameLoop example_page example_falling)))
     (js ''A'') = Hsl (1835 / 28)"
  by (simp_all add: keyStyle_proximityMap example_falling_facts example_falling_step
      proximity_def example_page_fields LETTER_WIDTH_def js_def)

lemma startGame_fields [simp]:
  "initialSpawnInterval (startGame E d s) = spawn (DIFFICULTY_SETTINGS d)"
  "initialFallSpeed (startGame E d s) = speed (DIFFICULTY_SETTINGS d)"
  "fallSpeedIncreasePerScore (startGame E d s) = increase (DIFFICULTY_SETTINGS d)"
  "score (startGame E d s) = 0"
  "gameIsActive (startGame E d s)"
  "fallingLetters (startGame E d s) = []"
  "projectiles (startGame E d s) = []"
  by (simp_all add: startGame_def Let_def scheduleNextLetter_def setTimeout_def setupKeyboard_def)

lemma startGame_timers:
  "timers (startGame E d s) = timers s @ [(nextTimerId s, spawn (DIFFICULTY_SETTINGS d))]"
  by (cases d)
     (simp_all add: startGame_def Let_def scheduleNextLetter_def setTimeout_def setupKeyboard_def
       nextInterval_def MIN_SPAWN_INTERVAL_def SPAWN_INTERVAL_REDUCTION_PER_SCORE_def)

lemma example_over_facts:
  "\<not> gameIsActive example_over" "isMovingLeft example_over" "\<not> isMovingRight example_over"
  by (simp_all add: example_over_def endGame_def clearTimeout_def example_game_def Let_def)

lemma hebrew_units:
  "[c] \<in> set HEBREW_CHARACTERS \<longleftrightarrow> c \<in> set (concat HEBREW_KEYBOARD_LAYOUT)"
  by (auto simp: HEBREW_CHARACTERS_def split_chars_def)

subsection \<open>Collisions in the example states\<close>

lemmas example_defs = example_page_def example_game_def

lemmas collides_defs = collides_def overlapping_def projRectOf_def letterRectOf_def
        LETTER_WIDTH_def PROJECTILE_WIDTH_def moveProjectile_def PROJECTILE_SPEED_def
        toUpperCase_def js_def isLower_def

lemma example_collides:
  "collides example_page (moveProjectile (projectiles example_game ! 0)) (fallingLetters example_game ! 1)"
  "\<not> collides example_page (moveProjectile (projectiles example_game ! 0)) (fallingLetters example_game ! 0)"
  by (simp_all add: example_defs collides_def overlapping_def projRectOf_def letterRectOf_def
        LETTER_WIDTH_def PROJECTILE_WIDTH_def moveProjectile_def PROJECTILE_SPEED_def
        toUpperCase_def js_def isLower_def)

subsection \<open>Runs of hits, and the rounded fall\<close>

lemma example_edge_numbers:
  "double (double (3 / 10) + double (90 * double (1 / 20)))
     = 5404319552844595 / 1125899906842624"
  "double (double (2976 / 5) + 5404319552844595 / 1125899906842624) = 600"
  "double (2976 / 5) = 2617717283409101 / 4398046511104"
  by code_simp+

lemma example_edge_facts:
  "gameIsActive example_edge"
  "fallingLetters example_edge =
         [\<lparr>letter_character = Some (js ''A''), letter_y = double (2976 / 5),
           letter_left = 0, letter_top = 595\<rparr>]"
  "fallSpeed example_edge = 5404319552844595 / 1125899906842624"
  by (simp_all add: example_edge_def example_game_def fallSpeed_def fadd_def fmul_def
      example_edge_numbers(1))

text \<open>The first ten positions of a letter on the easy tier at score 0.\<close>

lemma easy_trajectory:
  "double (3 / 10) = 5404319552844595 / 18014398509481984"
  "double (5404319552844595 / 18014398509481984) = 5404319552844595 / 18014398509481984"
  "double (5404319552844595 / 9007199254740992) = 5404319552844595 / 9007199254740992"
  "double (16212958658533785 / 18014398509481984) = 2026619832316723 / 2251799813685248"
  "double (21617278211378379 / 18014398509481984) = 5404319552844595 / 4503599627370496"
  "double (27021597764222975 / 18014398509481984) = 3 / 2"
  "double (32425917317067571 / 18014398509481984) = 8106479329266893 / 4503599627370496"
  "double (37830236869912167 / 18014398509481984) = 4728779608739021 / 2251799813685248"
  "double (43234556422756763 / 18014398509481984) = 5404319552844595 / 2251799813685248"
  "double (48638875975601355 / 18014398509481984) = 6079859496950169 / 2251799813685248"
  "double (54043195528445947 / 18014398509481984) = 6755399441055743 / 2251799813685248"
  by code_simp+

lemma easy_floor: "\<lfloor>6755399441055743 / 2251799813685248 :: rat\<rfloor> = 2"
  by (simp add: floor_eq_iff)

lemma easy_nine_frames:
  "((\<lambda>y. fadd y (double (3 / 10))) ^^ 9) 0 = 6079859496950169 / 2251799813685248"
  by (simp add: numeral_eq_Suc fadd_def easy_trajectory)

lemma example_easy_facts:
  "gameIsActive example_easy" "projectiles example_easy = []"
  "fallingLetters example_easy =
         [\<lparr>letter_character = Some (js ''A''),
           letter_y = 6079859496950169 / 2251799813685248,
           letter_left = 0, letter_top = 2\<rparr>]"
  "fallSpeed example_easy = 5404319552844595 / 18014398509481984"
  "initialFallSpeed example_easy = speed (DIFFICULTY_SETTINGS Easy)"
  "fallSpeedIncreasePerScore example_easy = increase (DIFFICULTY_SETTINGS Easy)"
  "score example_easy = 0"
proof -
  show "fallSpeed example_easy = 5404319552844595 / 18014398509481984"
    by (simp add: example_easy_def example_game_def fallSpeed_def fadd_def fmul_def
        easy_trajectory)
qed (simp_all add: example_easy_def example_game_def)

lemma example_easy_step:
  "gameIsActive (gameLoop example_page example_easy)"
  "fallingLetters (gameLoop example_page example_easy) =
         [\<lparr>letter_character = Some (js ''A''),
           letter_y = 6755399441055743 / 2251799813685248,
           letter_left = 0, letter_top = 2\<rparr>]"
proof -
  show a: "gameIsActive (gameLoop example_page example_easy)"
    by (simp add: gameLoop_quiet_active example_easy_facts example_page_fields
        moveLetter_def fadd_def easy_trajectory)
  show "fallingLetters (gameLoop example_page example_easy) =
         [\<lparr>letter_character = Some (js ''A''),
           letter_y = 6755399441055743 / 2251799813685248,
           letter_left = 0, letter_top = 2\<rparr>]"
    using gameLoop_quiet(1) [OF example_easy_facts(1,2) a]
    by (simp add: example_easy_facts moveLetter_def fadd_def easy_trajectory easy_floor)
qed

lemma tier_speed_bounds:
  "29 / 100 \<le> speed (DIFFICULTY_SETTINGS d)" "0 \<le> increase (DIFFICULTY_SETTINGS d)"
  using double_literals by (cases d; simp)+

lemma double_lower:
  assumes "1 / 4 \<le> x"
  shows "x - x / 2 ^ 53 \<le> double x"
proof -
  from assms have "\<bar>double x - x\<bar> \<le> x / 2 ^ 53"
    by (rule double_error)
  then have "- (double x - x) \<le> x / 2 ^ 53"
    by (rule abs_le_D2)
  then show ?thesis by simp
qed

lemma fallSpeed_lower:
  assumes "initialFallSpeed s = speed (DIFFICULTY_SETTINGS d)"
    and "fallSpeedIncreasePerScore s = increase (DIFFICULTY_SETTINGS d)"
  shows "1 / 4 < fallSpeed s"
proof -
  define t where "t = double (of_nat (score s) * fallSpeedIncreasePerScore s)"
  define x where "x = initialFallSpeed s + t"
  define e where "e = x / 2 ^ 53"
  have "0 \<le> t"
    unfolding t_def using assms(2) tier_speed_bounds(2) [of d] by (intro double_nonneg) simp
  with assms(1) tier_speed_bounds(1) [of d] have x: "29 / 100 \<le> x"
    by (simp add: x_def)
  then have "x - e \<le> double x"
    unfolding e_def by (intro double_lower) simp
  moreover have "e \<le> x / 100"
    unfolding e_def using x by (intro divide_left_mono) simp_all
  ultimately have "1 / 4 < double x"
    using x by linarith
  then show ?thesis
    by (simp add: fallSpeed_def fadd_def fmul_def x_def t_def)
qed

text \<open>One rounded addition of a speed to a position below \<open>2 ^ 50\<close> moves the position.\<close>

lemma double_add_increases:
  assumes "0 \<le> y" "1 / 4 \<le> v" "double (y + v) < 2 ^ 50"
  shows "y < double (y + v)"
proof -
  define x where "x = y + v"
  define e where "e = x / 2 ^ 53"
  define B :: rat where "B = 2 ^ 50"
  from assms have x: "1 / 4 \<le> x" by (simp add: x_def)
  then have lo: "x - e \<le> double x"
    unfolding e_def by (rule double_lower)
  have "e \<le> x / 2"
    unfolding e_def using x by (intro divide_left_mono) simp_all
  moreover have "double x < B"
    using assms(3) by (simp add: x_def B_def)
  ultimately have "x / 2 < B"
    using lo by linarith
  then have "x < 2 ^ 53 / 4" by (simp add: B_def)
  then have "e < 1 / 4"
    unfolding e_def by (simp add: field_simps)
  with lo assms(2) have "x - v < double x" by linarith
  then show ?thesis by (simp add: x_def)
qed

lemma runSteps_simps [simp]:
  "runSteps E [] s = s"
  "runSteps E (i # is) s = runSteps E is (projectileStep E i s)"
  by (simp_all add: runSteps_def)

lemma runSteps_append:
  "runSteps E (is @ is') s = runSteps E is' (runSteps E is s)"
  by (simp add: runSteps_def)

lemma hitRun_append:
  "hitRun E (is @ [i]) s \<longleftrightarrow> hitRun E is s \<and> isHit E i (runSteps E is s)"
  by (induction "is" arbitrary: s) auto

lemma updateProjectilesFrom_run:
  "updateProjectilesFrom E n s = runSteps E (rev [0..<n]) s"
  by (induction n arbitrary: s) simp_all

lemma isHit_step:
  assumes "isHit E i s"
  obtains j where "j < length (fallingLetters s)"
    and "projectileStep E i s =
           resolveHit E i j
             (s\<lparr>projectiles := (projectiles s)[i := moveProjectile (projectiles s ! i)]\<rparr>)"
proof -
  from assms obtain j where j:
    "scanLetters E (moveProjectile (projectiles s ! i)) (fallingLetters s)
       (length (fallingLetters s)) = Some j"
    by (auto simp: isHit_def)
  then have "j < length (fallingLetters s)"
    by (simp add: scanLetters_Some)
  with projectileStep_hit [OF j] that show thesis by blast
qed

text \<open>A hit that leaves letters on the board touches neither the timers nor the random source.\<close>

lemma hit_not_last:
  assumes "isHit E i s" "1 < length (fallingLetters s)"
  shows "length (fallingLetters (projectileStep E i s)) = length (fallingLetters s) - 1 \<and>
         randomCalls (projectileStep E i s) = randomCalls s \<and>
         nextTimerId (projectileStep E i s) = nextTimerId s \<and>
         timers (projectileStep E i s) = timers s \<and>
         letterInterval (projectileStep E i s) = letterInterval s \<and>
         selectedLanguage (projectileStep E i s) = selectedLanguage s \<and>
         initialSpawnInterval (projectileStep E i s) = initialSpawnInterval s \<and>
         gameIsActive (projectileStep E i s) = gameIsActive s \<and>
         score (projectileStep E i s) = score s + 1"
proof -
  let ?s1 = "s\<lparr>projectiles := (projectiles s)[i := moveProjectile (projectiles s ! i)]\<rparr>"
  from assms(1) obtain j where j: "j < length (fallingLetters s)"
    and step: "projectileStep E i s = resolveHit E i j ?s1"
    by (rule isHit_step)
  from j assms(2) have "splice1 j (fallingLetters ?s1) \<noteq> []"
    by (simp add: splice1_Nil_iff)
  then have "resolveHit E i j ?s1 =
     ?s1\<lparr>score := Suc (score ?s1),
       projectiles := splice1 i (projectiles ?s1),
       fallingLetters := splice1 j (fallingLetters ?s1)\<rparr>"
    by (rule resolveHit_not_cleared)
  then show ?thesis
    using j by (simp add: step length_splice1)
qed

lemma hit_last:
  assumes "isHit E i s" "length (fallingLetters s) = 1" "gameIsActive s"
  shows "fallingLetters (projectileStep E i s) =
           [newLetter E (selectedLanguage s) (randomCalls s)] \<and>
         randomCalls (projectileStep E i s) = randomCalls s + 2 \<and>
         timers (projectileStep E i s) =
           timers (clearTimeout (letterInterval s) s)
           @ [(nextTimerId s,
               max MIN_SPAWN_INTERVAL
                 (initialSpawnInterval s
                    - int (score s + 1) * SPAWN_INTERVAL_REDUCTION_PER_SCORE))] \<and>
         letterInterval (projectileStep E i s) = Some (nextTimerId s) \<and>
         score (projectileStep E i s) = score s + 1"
proof -
  from assms(2) obtain l where l: "fallingLetters s = [l]"
    by (cases "fallingLetters s") auto
  from assms(1) have hit: "scanLetters E (moveProjectile (projectiles s ! i)) (fallingLetters s)
       (length (fallingLetters s)) \<noteq> None"
    and i: "i < length (projectiles s)"
    by (simp_all add: isHit_def)
  from hit l have c: "collides E (moveProjectile (projectiles s ! i)) l"
    by (simp split: if_splits)
  note step = projectileStep_cleared [OF assms(3) i l c]
  show ?thesis
    by (simp add: step clearTimeout_def split: option.splits)
qed

lemma run_partial:
  assumes "hitRun E is s" "length is < length (fallingLetters s)"
  shows "length (fallingLetters (runSteps E is s)) = length (fallingLetters s) - length is \<and>
         randomCalls (runSteps E is s) = randomCalls s \<and>
         nextTimerId (runSteps E is s) = nextTimerId s \<and>
         timers (runSteps E is s) = timers s \<and>
         letterInterval (runSteps E is s) = letterInterval s \<and>
         selectedLanguage (runSteps E is s) = selectedLanguage s \<and>
         initialSpawnInterval (runSteps E is s) = initialSpawnInterval s \<and>
         gameIsActive (runSteps E is s) = gameIsActive s \<and>
         score (runSteps E is s) = score s + length is"
  using assms
proof (induction "is" arbitrary: s)
  case Nil
  then show ?case by simp
next
  case (Cons i "is")
  from Cons.prems have hit: "isHit E i s" and more: "1 < length (fallingLetters s)"
    by simp_all
  note h = hit_not_last [OF hit more]
  have "hitRun E is (projectileStep E i s)"
    "length is < length (fallingLetters (projectileStep E i s))"
    using Cons.prems h by simp_all
  from Cons.IH [OF this] h Cons.prems(2) show ?case
    by simp
qed

lemma run_clear:
  assumes "gameIsActive s" "is \<noteq> []" "length is = length (fallingLetters s)"
    and "hitRun E is s"
  shows "length (fallingLetters (runSteps E (butlast is) s)) = 1 \<and>
         fallingLetters (runSteps E is s) = [newLetter E (selectedLanguage s) (randomCalls s)] \<and>
         randomCalls (runSteps E is s) = randomCalls s + 2 \<and>
         score (runSteps E is s) = score s + length is \<and>
         timers (runSteps E is s) =
           timers (clearTimeout (letterInterval s) s)
           @ [(nextTimerId s,
               max MIN_SPAWN_INTERVAL
                 (initialSpawnInterval s
                    - int (score s + length is) * SPAWN_INTERVAL_REDUCTION_PER_SCORE))] \<and>
         letterInterval (runSteps E is s) = Some (nextTimerId s)"
proof -
  from assms(2) obtain is0 i where split: "is = is0 @ [i]"
    by (cases "is" rule: rev_cases) auto
  let ?s1 = "runSteps E is0 s"
  from assms(4) split have run0: "hitRun E is0 s" and hit: "isHit E i ?s1"
    by (simp_all add: hitRun_append)
  from assms(3) split have lt: "length is0 < length (fallingLetters s)" by simp
  note p = run_partial [OF run0 lt]
  from p assms(3) split have one: "length (fallingLetters ?s1) = 1" by simp
  from p assms(1) have act: "gameIsActive ?s1" by simp
  note h = hit_last [OF hit one act]
  have last: "runSteps E is s = projectileStep E i ?s1"
    by (simp add: split runSteps_append)
  have vals: "selectedLanguage ?s1 = selectedLanguage s" "randomCalls ?s1 = randomCalls s"
    "nextTimerId ?s1 = nextTimerId s" "initialSpawnInterval ?s1 = initialSpawnInterval s"
    "score ?s1 = score s + length is0"
    using p by simp_all
  have tm: "timers (clearTimeout (letterInterval ?s1) ?s1)
              = timers (clearTimeout (letterInterval s) s)"
    using p by (simp add: clearTimeout_def split: option.splits)
  have len: "score s + length is = score s + length is0 + 1"
    by (simp add: split)
  have "length (fallingLetters (runSteps E (butlast is) s)) = 1"
    using one by (simp add: split)
  moreover from h have "fallingLetters (runSteps E is s) =
      [newLetter E (selectedLanguage s) (randomCalls s)]"
    unfolding last vals by (rule conjunct1)
  moreover from h have "randomCalls (runSteps E is s) = randomCalls s + 2"
    unfolding last vals by blast
  moreover from h have "score (runSteps E is s) = score s + length is"
    unfolding last vals len by blast
  moreover from h have "timers (runSteps E is s) =
           timers (clearTimeout (letterInterval s) s)
           @ [(nextTimerId s,
               max MIN_SPAWN_INTERVAL
                 (initialSpawnInterval s
                    - int (score s + length is) * SPAWN_INTERVAL_REDUCTION_PER_SCORE))]"
    unfolding last vals tm len by blast
  moreover from h have "letterInterval (runSteps E is s) = Some (nextTimerId s)"
    unfolding last vals by blast
  ultimately show ?thesis by blast
qed

lemma example_pair_run: "hitRun example_page [1, 0] example_pair"
  by (simp add: isHit_def projectileStep_def resolveHit_def splice1_def Let_def
      example_pair_def example_defs collides_defs)

lemma example_pair_facts:
  "gameIsActive example_pair" "length (fallingLetters example_pair) = 2"
  "length (projectiles example_pair) = 2" "selectedLanguage example_pair = En"
  "randomCalls example_pair = 0" "score example_pair = 0"
  "letterInterval example_pair = Some 1" "timers example_pair = [(1, 3000)]"
  "nextTimerId example_pair = 2" "initialSpawnInterval example_pair = 3000"
  by (simp_all add: example_pair_def example_game_def)

section \<open>The claims\<close>

text \<open>
  Claim C1. In one iteration of the projectile loop, the projectile at index \<open>i\<close> is
  compared, at its advanced position, with the falling letters from the last index down.
  The first letter in this order whose character equals the upper-cased character of the
  projectile and whose bounding box overlaps the projectile's (strictly, on both axes)
  resolves a hit: the score grows by exactly 1, the projectile is removed and exactly this
  letter is removed (with the immediate respawn if it was the only one); no other letter
  is touched. If no letter collides, in particular if the letters of the same character do
  not overlap the projectile, the score and the letters stay as they are.
\<close>

theorem projectile_hit:
  assumes "i < length (projectiles s)"
  shows "(\<forall>j. j < length (fallingLetters s) \<and>
              collides E (moveProjectile (projectiles s ! i)) (fallingLetters s ! j) \<and>
              (\<forall>k. j < k \<and> k < length (fallingLetters s) \<longrightarrow>
                   \<not> collides E (moveProjectile (projectiles s ! i)) (fallingLetters s ! k)) \<longrightarrow>
            score (projectileStep E i s) = score s + 1 \<and>
            projectiles (projectileStep E i s) = splice1 i (projectiles s) \<and>
            fallingLetters (projectileStep E i s) =
              (if length (fallingLetters s) = 1
               then [newLetter E (selectedLanguage s) (randomCalls s)]
               else splice1 j (fallingLetters s)))
       \<and> ((\<forall>j<length (fallingLetters s).
              \<not> collides E (moveProjectile (projectiles s ! i)) (fallingLetters s ! j)) \<longrightarrow>
            score (projectileStep E i s) = score s \<and>
            fallingLetters (projectileStep E i s) = fallingLetters s)
       \<and> (\<forall>p l. collides E p l \<longleftrightarrow>
              Some (toUpperCase (proj_character p)) = letter_character l \<and>
              proj_left p < of_int (letter_left l) + 40 \<and>
              proj_left p + 25 > of_int (letter_left l) \<and>
              of_int (proj_top p) < of_int (letter_top l) + LETTER_HEIGHT E \<and>
              of_int (proj_top p) + PROJECTILE_HEIGHT E > of_int (letter_top l))"
proof (intro conjI allI impI)
  fix j
  assume h: "j < length (fallingLetters s) \<and>
              collides E (moveProjectile (projectiles s ! i)) (fallingLetters s ! j) \<and>
              (\<forall>k. j < k \<and> k < length (fallingLetters s) \<longrightarrow>
                   \<not> collides E (moveProjectile (projectiles s ! i)) (fallingLetters s ! k))"
  then have "scanLetters E (moveProjectile (projectiles s ! i)) (fallingLetters s)
               (length (fallingLetters s)) = Some j"
    by (simp add: scanLetters_Some)
  then have step: "projectileStep E i s =
      resolveHit E i j (s\<lparr>projectiles := (projectiles s)[i := moveProjectile (projectiles s ! i)]\<rparr>)"
    by (rule projectileStep_hit)
  show "score (projectileStep E i s) = score s + 1"
    by (simp add: step)
  show "projectiles (projectileStep E i s) = splice1 i (projectiles s)"
    by (simp add: step)
  show "fallingLetters (projectileStep E i s) =
              (if length (fallingLetters s) = 1
               then [newLetter E (selectedLanguage s) (randomCalls s)]
               else splice1 j (fallingLetters s))"
    using h by (simp add: step resolveHit_letters splice1_Nil_iff)
next
  assume "\<forall>j<length (fallingLetters s).
              \<not> collides E (moveProjectile (projectiles s ! i)) (fallingLetters s ! j)"
  then have "scanLetters E (moveProjectile (projectiles s ! i)) (fallingLetters s)
               (length (fallingLetters s)) = None"
    by (simp add: scanLetters_None)
  then have step: "projectileStep E i s =
           s\<lparr>projectiles :=
               (if proj_top (projectiles s ! i) < 0
                then splice1 i ((projectiles s)[i := moveProjectile (projectiles s ! i)])
                else (projectiles s)[i := moveProjectile (projectiles s ! i)])\<rparr>"
    by (rule projectileStep_miss)
  show "score (projectileStep E i s) = score s"
    by (simp add: step)
  show "fallingLetters (projectileStep E i s) = fallingLetters s"
    by (simp add: step)
next
  fix p l
  show "collides E p l \<longleftrightarrow>
              Some (toUpperCase (proj_character p)) = letter_character l \<and>
              proj_left p < of_int (letter_left l) + 40 \<and>
              proj_left p + 25 > of_int (letter_left l) \<and>
              of_int (proj_top p) < of_int (letter_top l) + LETTER_HEIGHT E \<and>
              of_int (proj_top p) + PROJECTILE_HEIGHT E > of_int (letter_top l)"
    by (simp add: collides_def overlapping_def projRectOf_def letterRectOf_def
        LETTER_WIDTH_def PROJECTILE_WIDTH_def)
qed

theorem projectile_hit_witness:
  "score (projectileStep example_page 0 example_game) = 1 \<and>
   projectiles (projectileStep example_page 0 example_game) = [] \<and>
   fallingLetters (projectileStep example_page 0 example_game) =
     [\<lparr>letter_character = Some (js ''A''), letter_y = 100, letter_left = 0, letter_top = 100\<rparr>] \<and>
   \<not> collides example_page (moveProjectile (projectiles example_game ! 0))
       (fallingLetters example_game ! 0)"
proof -
  have i: "0 < length (projectiles example_game)"
    by (simp add: example_defs)
  have j: "1 < length (fallingLetters example_game) \<and>
              collides example_page (moveProjectile (projectiles example_game ! 0)) (fallingLetters example_game ! 1) \<and>
              (\<forall>k. 1 < k \<and> k < length (fallingLetters example_game) \<longrightarrow>
                   \<not> collides example_page (moveProjectile (projectiles example_game ! 0)) (fallingLetters example_game ! k))"
    using example_collides(1) by (simp add: example_game_def)
  from projectile_hit [OF i, of example_page] j
  have "score (projectileStep example_page 0 example_game) = score example_game + 1 \<and>
            projectiles (projectileStep example_page 0 example_game) = splice1 0 (projectiles example_game) \<and>
            fallingLetters (projectileStep example_page 0 example_game) =
              (if length (fallingLetters example_game) = 1
               then [newLetter example_page (selectedLanguage example_game) (randomCalls example_game)]
               else splice1 1 (fallingLetters example_game))"
    by blast
  then show ?thesis
    using example_collides(2) by (simp add: example_game_def splice1_def)
qed

text \<open>
  Claim C2. In an active session \<open>scheduleNextLetter\<close> arms a timeout whose delay is
  \<open>max MIN_SPAWN_INTERVAL (initialSpawnInterval - score * SPAWN_INTERVAL_REDUCTION_PER_SCORE)\<close>
  milliseconds, and its callback spawns one letter and arms the next timeout. The delay
  is never below the floor of 400 ms, whatever the score. On the easy tier the delay is
  10000 ms at score 0, as armed by \<open>startGame\<close>, and \<open>max 400 (10000 - 500) = 9500\<close> ms at
  score 50.
\<close>

theorem spawn_interval:
  "(gameIsActive s \<longrightarrow>
      timers (scheduleNextLetter s) =
        timers s @ [(nextTimerId s,
          max MIN_SPAWN_INTERVAL
            (initialSpawnInterval s - int (score s) * SPAWN_INTERVAL_REDUCTION_PER_SCORE))] \<and>
      letterInterval (scheduleNextLetter s) = Some (nextTimerId s) \<and>
      fallingLetters (letterCallback E s) =
        fallingLetters s @ [newLetter E (selectedLanguage s) (randomCalls s)] \<and>
      timers (letterCallback E s) = timers s @ [(nextTimerId s, nextInterval s)]) \<and>
   MIN_SPAWN_INTERVAL = 400 \<and> SPAWN_INTERVAL_REDUCTION_PER_SCORE = 10 \<and>
   nextInterval s = max 400 (initialSpawnInterval s - int (score s) * 10) \<and>
   400 \<le> nextInterval s \<and>
   nextInterval (startGame E Easy s) = 10000 \<and>
   timers (startGame E Easy s) = timers s @ [(nextTimerId s, 10000)] \<and>
   (initialSpawnInterval s = spawn (DIFFICULTY_SETTINGS Easy) \<and> score s = 50 \<longrightarrow>
      nextInterval s = max 400 (10000 - 500) \<and> nextInterval s = 9500)"
proof (intro conjI impI)
  assume a: "gameIsActive s"
  then show "timers (scheduleNextLetter s) =
        timers s @ [(nextTimerId s,
          max MIN_SPAWN_INTERVAL
            (initialSpawnInterval s - int (score s) * SPAWN_INTERVAL_REDUCTION_PER_SCORE))]"
    by (simp add: scheduleNextLetter_active nextInterval_def)
  from a show "letterInterval (scheduleNextLetter s) = Some (nextTimerId s)"
    by (simp add: scheduleNextLetter_active)
  show "fallingLetters (letterCallback E s) =
        fallingLetters s @ [newLetter E (selectedLanguage s) (randomCalls s)]"
    by (simp add: letterCallback_def)
  from a show "timers (letterCallback E s) = timers s @ [(nextTimerId s, nextInterval s)]"
    by (simp add: letterCallback_def scheduleNextLetter_active nextInterval_def)
next
  assume a: "initialSpawnInterval s = spawn (DIFFICULTY_SETTINGS Easy) \<and> score s = 50"
  then show "nextInterval s = max 400 (10000 - 500)" "nextInterval s = 9500"
    by (simp_all add: nextInterval_def MIN_SPAWN_INTERVAL_def
        SPAWN_INTERVAL_REDUCTION_PER_SCORE_def)
qed (simp_all add: nextInterval_def MIN_SPAWN_INTERVAL_def
        SPAWN_INTERVAL_REDUCTION_PER_SCORE_def startGame_timers)

theorem spawn_interval_witness:
  "timers (scheduleNextLetter example_game) = [(1, 3000), (2, 3000)] \<and>
   nextInterval ((startGame example_page Easy example_game)\<lparr>score := 50\<rparr>) = 9500 \<and>
   nextInterval ((startGame example_page Easy example_game)\<lparr>score := 5000\<rparr>) = 400"
proof -
  have 1: "gameIsActive example_game"
    by (simp add: example_game_def)
  have 2: "initialSpawnInterval ((startGame example_page Easy example_game)\<lparr>score := 50\<rparr>)
             = spawn (DIFFICULTY_SETTINGS Easy) \<and>
           score ((startGame example_page Easy example_game)\<lparr>score := 50\<rparr>) = 50"
    by simp
  from spawn_interval [of example_game example_page] 1
  have "timers (scheduleNextLetter example_game) =
        timers example_game @ [(nextTimerId example_game,
          max MIN_SPAWN_INTERVAL
            (initialSpawnInterval example_game
               - int (score example_game) * SPAWN_INTERVAL_REDUCTION_PER_SCORE))]"
    by blast
  moreover from spawn_interval [of "(startGame example_page Easy example_game)\<lparr>score := 50\<rparr>" example_page] 2
  have "nextInterval ((startGame example_page Easy example_game)\<lparr>score := 50\<rparr>) = 9500"
    by blast
  moreover from spawn_interval [of "(startGame example_page Easy example_game)\<lparr>score := 5000\<rparr>" example_page]
  have "nextInterval ((startGame example_page Easy example_game)\<lparr>score := 5000\<rparr>) =
     max 400 (initialSpawnInterval ((startGame example_page Easy example_game)\<lparr>score := 5000\<rparr>)
        - int (score ((startGame example_page Easy example_game)\<lparr>score := 5000\<rparr>)) * 10)"
    by blast
  ultimately show ?thesis
    by (simp add: example_game_def MIN_SPAWN_INTERVAL_def SPAWN_INTERVAL_REDUCTION_PER_SCORE_def)
qed

section \<open>C3: a cleared board is refilled at once\<close>

text \<open>
  Claim C3. In an active session, the iteration of the projectile loop that resolves a hit
  on the only falling letter cancels the pending timeout of the scheduler, spawns exactly
  one new letter (two calls of the random source) and arms a new timeout, all within that
  iteration. A run of \<open>N\<close> iterations that each resolve a hit, on a board of \<open>N\<close>
  letters, removes all of them: one letter is left before the last iteration, which clears
  the board and triggers this respawn, so that the run spawns exactly one letter (two calls
  of the random source in all), cancels and re-arms the timeout once, and ends with the
  respawned letter alone on the board. A frame runs the iterations for its projectiles from
  the last index down, and a board that is not empty before the projectiles are updated is
  not empty afterwards.
\<close>

theorem board_cleared_respawn:
  assumes "gameIsActive s"
  shows "(\<forall>i l. i < length (projectiles s) \<and> fallingLetters s = [l] \<and>
            collides E (moveProjectile (projectiles s ! i)) l \<longrightarrow>
            fallingLetters (projectileStep E i s) =
              [newLetter E (selectedLanguage s) (randomCalls s)] \<and>
            randomCalls (projectileStep E i s) = randomCalls s + 2 \<and>
            timers (projectileStep E i s) =
              timers (clearTimeout (letterInterval s) s)
              @ [(nextTimerId s,
                  max MIN_SPAWN_INTERVAL
                    (initialSpawnInterval s
                       - int (score s + 1) * SPAWN_INTERVAL_REDUCTION_PER_SCORE))] \<and>
            letterInterval (projectileStep E i s) = Some (nextTimerId s)) \<and>
         (\<forall>is. is \<noteq> [] \<and> length is = length (fallingLetters s) \<and> hitRun E is s \<longrightarrow>
            length (fallingLetters (runSteps E (butlast is) s)) = 1 \<and>
            fallingLetters (runSteps E is s) =
              [newLetter E (selectedLanguage s) (randomCalls s)] \<and>
            randomCalls (runSteps E is s) = randomCalls s + 2 \<and>
            score (runSteps E is s) = score s + length is \<and>
            timers (runSteps E is s) =
              timers (clearTimeout (letterInterval s) s)
              @ [(nextTimerId s,
                  max MIN_SPAWN_INTERVAL
                    (initialSpawnInterval s
                       - int (score s + length is) * SPAWN_INTERVAL_REDUCTION_PER_SCORE))] \<and>
            letterInterval (runSteps E is s) = Some (nextTimerId s)) \<and>
         updateProjectiles E s = runSteps E (rev [0..<length (projectiles s)]) s \<and>
         (fallingLetters s \<noteq> [] \<longrightarrow> fallingLetters (updateProjectiles E s) \<noteq> [])"
proof (intro conjI allI impI)
  fix i l
  assume a: "i < length (projectiles s) \<and> fallingLetters s = [l] \<and>
            collides E (moveProjectile (projectiles s ! i)) l"
  then have step: "projectileStep E i s =
     s\<lparr>score := Suc (score s),
       projectiles := splice1 i (projectiles s),
       fallingLetters := [newLetter E (selectedLanguage s) (randomCalls s)],
       randomCalls := Suc (Suc (randomCalls s)),
       timers := (case letterInterval s of None \<Rightarrow> timers s
                  | Some t \<Rightarrow> filter (\<lambda>p. fst p \<noteq> t) (timers s))
                 @ [(nextTimerId s,
                     max MIN_SPAWN_INTERVAL
                       (initialSpawnInterval s
                          - int (Suc (score s)) * SPAWN_INTERVAL_REDUCTION_PER_SCORE))],
       nextTimerId := Suc (nextTimerId s),
       letterInterval := Some (nextTimerId s)\<rparr>"
    using assms by (intro projectileStep_cleared) blast+
  show "fallingLetters (projectileStep E i s) = [newLetter E (selectedLanguage s) (randomCalls s)]"
    by (simp add: step)
  show "randomCalls (projectileStep E i s) = randomCalls s + 2"
    by (simp add: step)
  show "letterInterval (projectileStep E i s) = Some (nextTimerId s)"
    by (simp add: step)
  show "timers (projectileStep E i s) =
              timers (clearTimeout (letterInterval s) s)
              @ [(nextTimerId s,
                  max MIN_SPAWN_INTERVAL
                    (initialSpawnInterval s
                       - int (score s + 1) * SPAWN_INTERVAL_REDUCTION_PER_SCORE))]"
    by (simp add: step clearTimeout_def split: option.splits)
next
  fix "is"
  assume a: "is \<noteq> [] \<and> length is = length (fallingLetters s) \<and> hitRun E is s"
  then have c: "length (fallingLetters (runSteps E (butlast is) s)) = 1 \<and>
         fallingLetters (runSteps E is s) = [newLetter E (selectedLanguage s) (randomCalls s)] \<and>
         randomCalls (runSteps E is s) = randomCalls s + 2 \<and>
         score (runSteps E is s) = score s + length is \<and>
         timers (runSteps E is s) =
           timers (clearTimeout (letterInterval s) s)
           @ [(nextTimerId s,
               max MIN_SPAWN_INTERVAL
                 (initialSpawnInterval s
                    - int (score s + length is) * SPAWN_INTERVAL_REDUCTION_PER_SCORE))] \<and>
         letterInterval (runSteps E is s) = Some (nextTimerId s)"
    using assms by (intro run_clear) blast+
  from c show "length (fallingLetters (runSteps E (butlast is) s)) = 1" by blast
  from c show "fallingLetters (runSteps E is s) =
      [newLetter E (selectedLanguage s) (randomCalls s)]" by blast
  from c show "randomCalls (runSteps E is s) = randomCalls s + 2" by blast
  from c show "score (runSteps E is s) = score s + length is" by blast
  from c show "timers (runSteps E is s) =
           timers (clearTimeout (letterInterval s) s)
           @ [(nextTimerId s,
               max MIN_SPAWN_INTERVAL
                 (initialSpawnInterval s
                    - int (score s + length is) * SPAWN_INTERVAL_REDUCTION_PER_SCORE))]" by blast
  from c show "letterInterval (runSteps E is s) = Some (nextTimerId s)" by blast
next
  show "updateProjectiles E s = runSteps E (rev [0..<length (projectiles s)]) s"
    by (simp add: updateProjectiles_def updateProjectilesFrom_run)
next
  assume "fallingLetters s \<noteq> []"
  then show "fallingLetters (updateProjectiles E s) \<noteq> []"
    by (simp add: updateProjectiles_def updateProjectilesFrom_nonempty)
qed

text \<open>
  A frame with two letters and two projectiles, each projectile under its letter: both
  iterations resolve a hit, the second clears the board, and the frame ends with the one
  respawned letter; and a frame on a board of one letter.
\<close>

theorem board_cleared_respawn_witness:
  "length (fallingLetters example_pair) = 2 \<and> length (projectiles example_pair) = 2 \<and>
   hitRun example_page [1, 0] example_pair \<and>
   length (fallingLetters (projectileStep example_page 1 example_pair)) = 1 \<and>
   fallingLetters (updateProjectiles example_page example_pair) =
     [\<lparr>letter_character = Some (js ''F''), letter_y = 0, letter_left = 380, letter_top = 0\<rparr>] \<and>
   randomCalls example_pair = 0 \<and>
   randomCalls (updateProjectiles example_page example_pair) = 2 \<and>
   score (updateProjectiles example_page example_pair) = 2 \<and>
   timers example_pair = [(1, 3000)] \<and>
   timers (updateProjectiles example_page example_pair) = [(2, 2980)] \<and>
   letterInterval (updateProjectiles example_page example_pair) = Some 2 \<and>
   fallingLetters (projectileStep example_page 0 example_past_top) =
     [\<lparr>letter_character = Some (js ''F''), letter_y = 0, letter_left = 380, letter_top = 0\<rparr>] \<and>
   timers (projectileStep example_page 0 example_past_top) = [(2, 2990)] \<and>
   fallingLetters (updateProjectiles example_page example_game) \<noteq> []"
proof -
  have act: "gameIsActive example_past_top" "gameIsActive example_game"
    by (simp_all add: example_past_top_def example_game_def)
  have 1: "0 < length (projectiles example_past_top) \<and>
     fallingLetters example_past_top = [hd (fallingLetters example_past_top)] \<and>
     collides example_page (moveProjectile (projectiles example_past_top ! 0))
       (hd (fallingLetters example_past_top))"
    by (simp add: example_past_top_def example_defs collides_defs)
  have 2: "[1, 0] \<noteq> [] \<and>
     length [1::nat, 0] = length (fallingLetters example_pair) \<and>
     hitRun example_page [1, 0] example_pair"
    using example_pair_run by (simp add: example_pair_facts)
  have 3: "fallingLetters example_game \<noteq> []"
    by (simp add: example_game_def)
  note A = board_cleared_respawn [OF act(1), of example_page]
  note B = board_cleared_respawn [OF example_pair_facts(1), of example_page]
  note C = board_cleared_respawn [OF act(2), of example_page]
  have "rev [0..<length (projectiles example_pair)] = [1, 0]"
    by (simp add: example_pair_facts numeral_2_eq_2)
  with B [THEN conjunct2, THEN conjunct2, THEN conjunct1]
  have run: "updateProjectiles example_page example_pair
               = runSteps example_page [1, 0] example_pair"
    by simp
  from A 1 have "fallingLetters (projectileStep example_page 0 example_past_top) =
              [newLetter example_page (selectedLanguage example_past_top) (randomCalls example_past_top)] \<and>
            timers (projectileStep example_page 0 example_past_top) =
              timers (clearTimeout (letterInterval example_past_top) example_past_top)
              @ [(nextTimerId example_past_top,
                  max MIN_SPAWN_INTERVAL
                    (initialSpawnInterval example_past_top
                       - int (score example_past_top + 1) * SPAWN_INTERVAL_REDUCTION_PER_SCORE))]"
    by blast
  then have a: "fallingLetters (projectileStep example_page 0 example_past_top) =
     [\<lparr>letter_character = Some (js ''F''), letter_y = 0, letter_left = 380, letter_top = 0\<rparr>] \<and>
   timers (projectileStep example_page 0 example_past_top) = [(2, 2990)]"
    by (simp add: example_past_top_def example_game_def newLetter_example clearTimeout_def
        MIN_SPAWN_INTERVAL_def SPAWN_INTERVAL_REDUCTION_PER_SCORE_def)
  from B 2 have "length (fallingLetters (runSteps example_page (butlast [1, 0]) example_pair)) = 1 \<and>
            fallingLetters (runSteps example_page [1, 0] example_pair) =
              [newLetter example_page (selectedLanguage example_pair) (randomCalls example_pair)] \<and>
            randomCalls (runSteps example_page [1, 0] example_pair) = randomCalls example_pair + 2 \<and>
            score (runSteps example_page [1, 0] example_pair) = score example_pair + length [1::nat, 0] \<and>
            timers (runSteps example_page [1, 0] example_pair) =
              timers (clearTimeout (letterInterval example_pair) example_pair)
              @ [(nextTimerId example_pair,
                  max MIN_SPAWN_INTERVAL
                    (initialSpawnInterval example_pair
                       - int (score example_pair + length [1::nat, 0]) * SPAWN_INTERVAL_REDUCTION_PER_SCORE))] \<and>
            letterInterval (runSteps example_page [1, 0] example_pair) = Some (nextTimerId example_pair)"
    by blast
  then have b: "length (fallingLetters (projectileStep example_page 1 example_pair)) = 1 \<and>
   fallingLetters (updateProjectiles example_page example_pair) =
     [\<lparr>letter_character = Some (js ''F''), letter_y = 0, letter_left = 380, letter_top = 0\<rparr>] \<and>
   randomCalls (updateProjectiles example_page example_pair) = 2 \<and>
   score (updateProjectiles example_page example_pair) = 2 \<and>
   timers (updateProjectiles example_page example_pair) = [(2, 2980)] \<and>
   letterInterval (updateProjectiles example_page example_pair) = Some 2"
    unfolding run
    by (simp add: example_pair_facts newLetter_example clearTimeout_def
        MIN_SPAWN_INTERVAL_def SPAWN_INTERVAL_REDUCTION_PER_SCORE_def)
  from C 3 have c: "fallingLetters (updateProjectiles example_page example_game) \<noteq> []"
    by blast
  from a b c example_pair_run show ?thesis
    by (simp add: example_pair_facts)
qed

section \<open>C4: the loss condition\<close>

text \<open>
  Claim C4. \<open>updateLetters\<close> advances the letters from the last index down, each by the
  rounded addition of the fall speed to its position, and tests each advanced position
  against the field height. If no advanced position exceeds the height (a position equal
  to the height included), every letter is advanced and the session stays as it was.
  Otherwise the session ends at the first letter, in this order, whose advanced position
  strictly exceeds the height: the letters before it in the array are not processed in
  that tick. The advanced position is the double nearest to the sum of the position and
  the fall speed, and the fall speed the double computed for the base speed plus score
  times growth.
\<close>

theorem letters_loss:
  "((\<forall>l\<in>set (fallingLetters s).
        letter_y (moveLetter (fallSpeed s) l) \<le> of_int (GAME_HEIGHT E)) \<longrightarrow>
      updateLetters E s =
        s\<lparr>fallingLetters := map (moveLetter (fallSpeed s)) (fallingLetters s)\<rparr>) \<and>
   (k < length (fallingLetters s) \<and>
    letter_y (moveLetter (fallSpeed s) (fallingLetters s ! k)) > of_int (GAME_HEIGHT E) \<and>
    (\<forall>j. k < j \<and> j < length (fallingLetters s) \<longrightarrow>
         letter_y (moveLetter (fallSpeed s) (fallingLetters s ! j)) \<le> of_int (GAME_HEIGHT E)) \<longrightarrow>
      \<not> gameIsActive (updateLetters E s) \<and>
      fallingLetters (updateLetters E s) =
        take k (fallingLetters s) @ map (moveLetter (fallSpeed s)) (drop k (fallingLetters s))) \<and>
   (gameIsActive (updateLetters E s) \<longleftrightarrow>
      gameIsActive s \<and>
      (\<forall>l\<in>set (fallingLetters s).
          letter_y (moveLetter (fallSpeed s) l) \<le> of_int (GAME_HEIGHT E))) \<and>
   (\<forall>v l. letter_y (moveLetter v l) = double (letter_y l + v) \<and>
          letter_top (moveLetter v l) = \<lfloor>double (letter_y l + v)\<rfloor>) \<and>
   fallSpeed s =
     double (initialFallSpeed s + double (of_nat (score s) * fallSpeedIncreasePerScore s))"
proof (intro conjI allI impI)
  assume "\<forall>l\<in>set (fallingLetters s).
        letter_y (moveLetter (fallSpeed s) l) \<le> of_int (GAME_HEIGHT E)"
  then show "updateLetters E s =
        s\<lparr>fallingLetters := map (moveLetter (fallSpeed s)) (fallingLetters s)\<rparr>"
    by (rule updateLetters_safe)
next
  assume a: "k < length (fallingLetters s) \<and>
    letter_y (moveLetter (fallSpeed s) (fallingLetters s ! k)) > of_int (GAME_HEIGHT E) \<and>
    (\<forall>j. k < j \<and> j < length (fallingLetters s) \<longrightarrow>
         letter_y (moveLetter (fallSpeed s) (fallingLetters s ! j)) \<le> of_int (GAME_HEIGHT E))"
  then have stop: "updateLetters E s =
           endGame (s\<lparr>fallingLetters := take k (fallingLetters s)
                        @ map (moveLetter (fallSpeed s)) (drop k (fallingLetters s))\<rparr>)"
    by (intro updateLetters_stop) blast+
  show "\<not> gameIsActive (updateLetters E s)"
    by (simp add: stop)
  show "fallingLetters (updateLetters E s) =
        take k (fallingLetters s) @ map (moveLetter (fallSpeed s)) (drop k (fallingLetters s))"
    by (simp add: stop)
next
  show "gameIsActive (updateLetters E s) \<longleftrightarrow>
      gameIsActive s \<and>
      (\<forall>l\<in>set (fallingLetters s).
          letter_y (moveLetter (fallSpeed s) l) \<le> of_int (GAME_HEIGHT E))"
    by (rule updateLetters_active)
next
  fix v l
  show "letter_y (moveLetter v l) = double (letter_y l + v)"
    "letter_top (moveLetter v l) = \<lfloor>double (letter_y l + v)\<rfloor>"
    by (simp_all add: moveLetter_def fadd_def)
next
  show "fallSpeed s =
     double (initialFallSpeed s + double (of_nat (score s) * fallSpeedIncreasePerScore s))"
    by (simp add: fallSpeed_def fadd_def fmul_def)
qed

text \<open>
  A letter that reaches the height 600 exactly, from 598 on the hard tier and from the
  double of 595.2 on the easy tier at score 90 (where the rounded sum is 600 although the
  sum of the two doubles is not), and a frame in which the letter at index 1 passes the
  height while the letter at index 0 is left where it was.
\<close>

theorem letters_loss_witness:
  "letter_y (moveLetter (fallSpeed example_falling) (fallingLetters example_falling ! 1))
     = of_int (GAME_HEIGHT example_page) \<and>
   gameIsActive (updateLetters example_page example_falling) \<and>
   map letter_y (fallingLetters (updateLetters example_page example_falling)) = [100, 600] \<and>
   \<not> gameIsActive (updateLetters example_page example_losing) \<and>
   map letter_y (fallingLetters example_losing) = [600, 600, 10] \<and>
   map letter_y (fallingLetters (updateLetters example_page example_losing)) = [600, 602, 12] \<and>
   score example_edge = 90 \<and>
   map letter_y (fallingLetters example_edge) = [2617717283409101 / 2 ^ 42] \<and>
   fallSpeed example_edge = 5404319552844595 / 2 ^ 50 \<and>
   map letter_y (fallingLetters (updateLetters example_page example_edge)) = [600] \<and>
   gameIsActive (updateLetters example_page example_edge)"
proof -
  have 1: "\<forall>l\<in>set (fallingLetters example_falling).
             letter_y (moveLetter (fallSpeed example_falling) l)
               \<le> of_int (GAME_HEIGHT example_page)"
    by (simp add: example_fallSpeed example_falling_facts example_page_fields move_defs)
  have 2: "1 < length (fallingLetters example_losing) \<and>
    letter_y (moveLetter (fallSpeed example_losing) (fallingLetters example_losing ! 1))
       > of_int (GAME_HEIGHT example_page) \<and>
    (\<forall>j. 1 < j \<and> j < length (fallingLetters example_losing) \<longrightarrow>
         letter_y (moveLetter (fallSpeed example_losing) (fallingLetters example_losing ! j))
           \<le> of_int (GAME_HEIGHT example_page))"
  proof (intro conjI allI impI)
    fix j assume "1 < j \<and> j < length (fallingLetters example_losing)"
    then have "j = 2" by (simp add: example_losing_facts)
    then show "letter_y (moveLetter (fallSpeed example_losing) (fallingLetters example_losing ! j))
           \<le> of_int (GAME_HEIGHT example_page)"
      by (simp add: example_fallSpeed example_losing_facts example_page_fields move_defs)
  qed (simp_all add: example_fallSpeed example_losing_facts example_page_fields move_defs)
  have 3: "\<forall>l\<in>set (fallingLetters example_edge).
             letter_y (moveLetter (fallSpeed example_edge) l)
               \<le> of_int (GAME_HEIGHT example_page)"
    by (simp add: example_edge_facts example_page_fields moveLetter_def fadd_def
        example_edge_numbers(2))
  from letters_loss [of example_falling example_page 0] 1
  have "updateLetters example_page example_falling =
        example_falling\<lparr>fallingLetters :=
          map (moveLetter (fallSpeed example_falling)) (fallingLetters example_falling)\<rparr>"
    by blast
  moreover from letters_loss [of example_losing example_page 1] 2
  have "\<not> gameIsActive (updateLetters example_page example_losing) \<and>
      fallingLetters (updateLetters example_page example_losing) =
        take 1 (fallingLetters example_losing)
        @ map (moveLetter (fallSpeed example_losing)) (drop 1 (fallingLetters example_losing))"
    by blast
  moreover from letters_loss [of example_edge example_page 0] 3
  have "updateLetters example_page example_edge =
        example_edge\<lparr>fallingLetters :=
          map (moveLetter (fallSpeed example_edge)) (fallingLetters example_edge)\<rparr>"
    by blast
  ultimately show ?thesis
    by (simp add: example_fallSpeed example_falling_facts example_losing_facts
        example_edge_facts example_page_fields moveLetter_def fadd_def double_ints
        example_edge_numbers(2))
       (simp add: example_edge_def example_edge_numbers(3))
qed

section \<open>C5: letters fall by the fall speed\<close>

text \<open>
  Claim C5 fails as stated in two points. A frame that starts in an active session and ends
  it leaves the letters before the first offender where they were: of the positions 600,
  600 and 10 the first stays at 600. And the increase of a position is not exactly the fall
  speed, nor the base speed plus score times growth: the additions are rounded to doubles.
  On the easy tier at score 0 the fall speed is the double of 0.3; nine frames take a letter
  from 0 to 6079859496950169 / 2^51, and the tenth takes it to 6755399441055743 / 2^51
  (2.9999999999999996, not 3), an increase that is neither the fall speed nor 3 / 10.
\<close>

theorem letters_fall_counterexample:
  "gameIsActive example_losing \<and> projectiles example_losing = [] \<and>
   fallSpeed example_losing = 2 \<and>
   map letter_y (fallingLetters example_losing) = [600, 600, 10] \<and>
   map letter_y (fallingLetters (gameLoop example_page example_losing)) = [600, 602, 12] \<and>
   ((\<lambda>y. fadd y (double (3 / 10))) ^^ 9) 0 = 6079859496950169 / 2 ^ 51 \<and>
   gameIsActive example_easy \<and> projectiles example_easy = [] \<and>
   gameIsActive (gameLoop example_page example_easy) \<and>
   fallSpeed example_easy = 5404319552844595 / 2 ^ 54 \<and>
   map letter_y (fallingLetters example_easy) = [6079859496950169 / 2 ^ 51] \<and>
   map letter_y (fallingLetters (gameLoop example_page example_easy))
     = [6755399441055743 / 2 ^ 51] \<and>
   (6755399441055743 / 2 ^ 51 - 6079859496950169 / 2 ^ 51 :: rat) \<noteq> 5404319552844595 / 2 ^ 54 \<and>
   (6755399441055743 / 2 ^ 51 - 6079859496950169 / 2 ^ 51 :: rat) \<noteq> 3 / 10"
proof -
  have "fallingLetters (gameLoop example_page example_losing) =
           take 1 (fallingLetters example_losing)
           @ map (moveLetter (fallSpeed example_losing)) (drop 1 (fallingLetters example_losing))"
  proof (rule gameLoop_quiet_stop)
    show "\<forall>j. 1 < j \<and> j < length (fallingLetters example_losing) \<longrightarrow>
           letter_y (moveLetter (fallSpeed example_losing) (fallingLetters example_losing ! j))
             \<le> of_int (GAME_HEIGHT example_page)"
    proof (intro allI impI)
      fix j assume "1 < j \<and> j < length (fallingLetters example_losing)"
      then have "j = 2" by (simp add: example_losing_facts)
      then show "letter_y (moveLetter (fallSpeed example_losing) (fallingLetters example_losing ! j))
             \<le> of_int (GAME_HEIGHT example_page)"
        by (simp add: example_losing_facts example_fallSpeed example_page_fields move_defs)
    qed
  qed (simp_all add: example_losing_facts example_fallSpeed example_page_fields move_defs)
  then have "map letter_y (fallingLetters (gameLoop example_page example_losing)) = [600, 602, 12]"
    by (simp add: example_losing_facts example_fallSpeed move_defs)
  moreover have "((\<lambda>y. fadd y (double (3 / 10))) ^^ 9) 0 = 6079859496950169 / 2 ^ 51"
    using easy_nine_frames by simp
  ultimately show ?thesis
    by (simp add: example_losing_facts example_fallSpeed example_easy_facts example_easy_step)
qed

text \<open>
  Claim C5, amended. For every sequence of frames with no projectile present, in every
  frame after which the session is still active, every letter's position is replaced by
  the double nearest to the sum of the position and the fall speed, where the fall speed is
  the double computed for the base speed plus score times growth, with the product and the
  sum each rounded. On every difficulty tier the fall speed exceeds 1 / 4 whatever the
  score, the rounded sum differs from the sum by at most the fraction 2^-53 of it, and, for
  a field height below 2^50 and positions that are not negative, the position of every
  letter strictly increases in the frame.
\<close>

theorem letters_fall_by_speed:
  assumes "projectiles s = []" "gameIsActive ((gameLoop E ^^ n) s)" "k < n"
  shows "map letter_y (fallingLetters ((gameLoop E ^^ Suc k) s)) =
           map (\<lambda>y. double (y + fallSpeed s))
             (map letter_y (fallingLetters ((gameLoop E ^^ k) s))) \<and>
         fallSpeed s =
           double (initialFallSpeed s
                   + double (of_nat (score s) * fallSpeedIncreasePerScore s)) \<and>
         ((\<exists>d. initialFallSpeed s = speed (DIFFICULTY_SETTINGS d) \<and>
               fallSpeedIncreasePerScore s = increase (DIFFICULTY_SETTINGS d)) \<longrightarrow>
            1 / 4 < fallSpeed s \<and>
            (\<forall>y. 0 \<le> y \<longrightarrow>
                 \<bar>double (y + fallSpeed s) - (y + fallSpeed s)\<bar> \<le> (y + fallSpeed s) / 2 ^ 53) \<and>
            (GAME_HEIGHT E < 2 ^ 50 \<and>
             (\<forall>l\<in>set (fallingLetters ((gameLoop E ^^ k) s)). 0 \<le> letter_y l) \<longrightarrow>
               (\<forall>i<length (fallingLetters ((gameLoop E ^^ k) s)).
                   letter_y (fallingLetters ((gameLoop E ^^ k) s) ! i)
                     < letter_y (fallingLetters ((gameLoop E ^^ Suc k) s) ! i))))"
proof -
  let ?t = "(gameLoop E ^^ k) s"
  have act: "gameIsActive ?t"
    using assms(2) by (rule gameLoop_iter_active) (use assms(3) in simp)
  have "gameIsActive ((gameLoop E ^^ Suc k) s)"
    using assms(2) by (rule gameLoop_iter_active) (use assms(3) in simp)
  then have act': "gameIsActive (gameLoop E ?t)" by simp
  from gameLoop_iter_quiet [OF assms(1) act]
  have inv: "projectiles ?t = []" "score ?t = score s"
    "initialFallSpeed ?t = initialFallSpeed s"
    "fallSpeedIncreasePerScore ?t = fallSpeedIncreasePerScore s"
    by simp_all
  have v: "fallSpeed ?t = fallSpeed s"
    by (simp add: fallSpeed_def inv)
  have Suc: "(gameLoop E ^^ Suc k) s = gameLoop E ?t" by simp
  have step: "fallingLetters (gameLoop E ?t) =
                map (moveLetter (fallSpeed s)) (fallingLetters ?t)"
    using gameLoop_quiet(1) [OF act inv(1) act'] by (simp add: v)
  have safe: "\<forall>l\<in>set (fallingLetters ?t).
                letter_y (moveLetter (fallSpeed s) l) \<le> of_int (GAME_HEIGHT E)"
    using act' gameLoop_quiet_active [OF act inv(1), of E] by (simp add: v)
  have 1: "map letter_y (fallingLetters ((gameLoop E ^^ Suc k) s)) =
           map (\<lambda>y. double (y + fallSpeed s)) (map letter_y (fallingLetters ?t))"
    unfolding Suc by (simp add: step letter_y_moveLetter comp_def)
  have 2: "fallSpeed s =
           double (initialFallSpeed s
                   + double (of_nat (score s) * fallSpeedIncreasePerScore s))"
    by (simp add: fallSpeed_def fadd_def fmul_def)
  have 3: "1 / 4 < fallSpeed s \<and>
            (\<forall>y. 0 \<le> y \<longrightarrow>
                 \<bar>double (y + fallSpeed s) - (y + fallSpeed s)\<bar> \<le> (y + fallSpeed s) / 2 ^ 53) \<and>
            (GAME_HEIGHT E < 2 ^ 50 \<and>
             (\<forall>l\<in>set (fallingLetters ?t). 0 \<le> letter_y l) \<longrightarrow>
               (\<forall>i<length (fallingLetters ?t).
                   letter_y (fallingLetters ?t ! i)
                     < letter_y (fallingLetters ((gameLoop E ^^ Suc k) s) ! i)))"
    if tier: "\<exists>d. initialFallSpeed s = speed (DIFFICULTY_SETTINGS d) \<and>
               fallSpeedIncreasePerScore s = increase (DIFFICULTY_SETTINGS d)"
  proof (intro conjI allI impI)
    from tier show low: "1 / 4 < fallSpeed s"
      using fallSpeed_lower by blast
    show "\<bar>double (y + fallSpeed s) - (y + fallSpeed s)\<bar> \<le> (y + fallSpeed s) / 2 ^ 53"
      if "0 \<le> y" for y
      using that low by (intro double_error) simp
    show "letter_y (fallingLetters ?t ! i)
            < letter_y (fallingLetters ((gameLoop E ^^ Suc k) s) ! i)"
      if h: "GAME_HEIGHT E < 2 ^ 50 \<and> (\<forall>l\<in>set (fallingLetters ?t). 0 \<le> letter_y l)"
        and i: "i < length (fallingLetters ?t)" for i
    proof -
      let ?l = "fallingLetters ?t ! i"
      from i have mem: "?l \<in> set (fallingLetters ?t)" by simp
      with safe have "double (letter_y ?l + fallSpeed s) \<le> of_int (GAME_HEIGHT E)"
        by (simp add: letter_y_moveLetter)
      also have "(of_int (GAME_HEIGHT E) :: rat) < of_int (2 ^ 50)"
        using h by (simp only: of_int_less_iff)
      finally have "double (letter_y ?l + fallSpeed s) < 2 ^ 50" by simp
      moreover from h mem have "0 \<le> letter_y ?l" by blast
      ultimately have "letter_y ?l < double (letter_y ?l + fallSpeed s)"
        using low by (intro double_add_increases) simp_all
      then show ?thesis
        unfolding Suc using i by (simp add: step letter_y_moveLetter)
    qed
  qed
  from 1 2 3 show ?thesis by blast
qed

text \<open>
  The tenth frame of a letter on the easy tier, and two frames on the hard tier.
\<close>

theorem letters_fall_by_speed_witness:
  "map letter_y (fallingLetters example_easy) = [6079859496950169 / 2 ^ 51] \<and>
   map letter_y (fallingLetters (gameLoop example_page example_easy))
     = [6755399441055743 / 2 ^ 51] \<and>
   map letter_top (fallingLetters (gameLoop example_page example_easy)) = [2] \<and>
   fallSpeed example_easy = double (3 / 10) \<and>
   (1 / 4 :: rat) < fallSpeed example_easy \<and>
   letter_y (fallingLetters example_easy ! 0)
     < letter_y (fallingLetters (gameLoop example_page example_easy) ! 0) \<and>
   map letter_y (fallingLetters ((gameLoop example_page ^^ 2) example_quiet)) = [104, 104]"
proof -
  have 1: "gameIsActive ((gameLoop example_page ^^ 1) example_easy)"
    by (simp add: example_easy_step)
  have tier: "\<exists>d. initialFallSpeed example_easy = speed (DIFFICULTY_SETTINGS d) \<and>
               fallSpeedIncreasePerScore example_easy = increase (DIFFICULTY_SETTINGS d)"
    using example_easy_facts(5,6) by blast
  have h: "GAME_HEIGHT example_page < 2 ^ 50 \<and>
     (\<forall>l\<in>set (fallingLetters ((gameLoop example_page ^^ 0) example_easy)). 0 \<le> letter_y l)"
    by (simp add: example_page_fields example_easy_facts)
  note t = letters_fall_by_speed [OF example_easy_facts(2) 1 zero_less_one]
  note t3 = t [THEN conjunct2, THEN conjunct2, THEN mp, OF tier]
  from t [THEN conjunct1]
  have a: "map letter_y (fallingLetters (gameLoop example_page example_easy)) =
           map (\<lambda>y. double (y + fallSpeed example_easy))
             (map letter_y (fallingLetters example_easy))"
    by simp
  from t3 [THEN conjunct1] have b: "1 / 4 < fallSpeed example_easy" .
  from t3 [THEN conjunct2, THEN conjunct2, THEN mp, OF h]
  have c: "letter_y (fallingLetters example_easy ! 0)
     < letter_y (fallingLetters (gameLoop example_page example_easy) ! 0)"
    by (simp add: example_easy_facts(3))
  let ?t = "gameLoop example_page example_quiet"
  have q: "projectiles ?t = []" "fallSpeed ?t = 2"
    using gameLoop_quiet(2-5) [OF example_quiet_facts(1,2) example_quiet_step(1)]
    by (simp_all add: fallSpeed_def example_quiet_facts fadd_def fmul_def double_ints)
  have "gameIsActive (gameLoop example_page ?t)"
    using example_quiet_step(1) q(1)
    by (simp add: gameLoop_quiet_active q example_quiet_step(2) example_page_fields move_defs)
  then have 2: "gameIsActive ((gameLoop example_page ^^ 2) example_quiet)"
    by (simp add: numeral_2_eq_2)
  have "(1::nat) < 2" by simp
  from letters_fall_by_speed [OF example_quiet_facts(2) 2 this, THEN conjunct1]
  have d: "map letter_y (fallingLetters ((gameLoop example_page ^^ 2) example_quiet)) = [104, 104]"
    by (simp add: numeral_2_eq_2 example_quiet_facts example_quiet_step(2) double_ints)
  from a b c d show ?thesis
    by (simp add: example_easy_facts example_easy_step easy_trajectory)
qed

text \<open>
  Claim C6. Provided the field is higher than a letter is wide, \<open>updateKeyboardVisuals\<close>
  gives each key whose character is carried by some falling letter the red style of
  intensity \<open>min m 1\<close>, where \<open>m\<close> is the greatest proximity
  \<open>offsetTop / (GAME_HEIGHT - LETTER_WIDTH)\<close> among the letters with that character
  (lightness \<open>70 - 25 * intensity\<close>), and resets every other key to the default style.
  \<open>endGame\<close> resets every key to the default style. The \<open>offsetTop\<close> of a letter is
  the floor of its vertical position, both when it is created and whenever it is moved.
\<close>

theorem keyboard_intensity:
  assumes "LETTER_WIDTH < GAME_HEIGHT E"
  shows "keyboardMap (updateKeyboardVisuals E s) =
           map (\<lambda>(char, keyElement).
                 (char,
                  if \<exists>l\<in>set (fallingLetters s). letter_character l = Some char
                  then Hsl (70 - 25 * min (Max (set (proximitiesOf E (Some char)
                                                      (fallingLetters s)))) 1)
                  else Default))
             (keyboardMap s) \<and>
         (\<forall>c. proximitiesOf E c (fallingLetters s) =
               map (\<lambda>l. of_int (letter_top l) / of_int (GAME_HEIGHT E - 40))
                 (filter (\<lambda>l. letter_character l = c) (fallingLetters s))) \<and>
         keyboardMap (endGame s) = map (\<lambda>(char, keyElement). (char, Default)) (keyboardMap s) \<and>
         (\<forall>v l. letter_top (moveLetter v l) = \<lfloor>letter_y (moveLetter v l)\<rfloor>) \<and>
         (\<forall>lang n. letter_top (newLetter E lang n) = \<lfloor>letter_y (newLetter E lang n)\<rfloor>)"
proof (intro conjI allI)
  show "keyboardMap (updateKeyboardVisuals E s) =
           map (\<lambda>(char, keyElement).
                 (char,
                  if \<exists>l\<in>set (fallingLetters s). letter_character l = Some char
                  then Hsl (70 - 25 * min (Max (set (proximitiesOf E (Some char)
                                                      (fallingLetters s)))) 1)
                  else Default))
             (keyboardMap s)"
    by (simp add: keyStyle_proximityMap)
next
  fix c
  have "proximity E = (\<lambda>l. of_int (letter_top l) / of_int (GAME_HEIGHT E - 40))"
    by (rule ext) (simp add: proximity_def LETTER_WIDTH_def)
  then show "proximitiesOf E c (fallingLetters s) =
               map (\<lambda>l. of_int (letter_top l) / of_int (GAME_HEIGHT E - 40))
                 (filter (\<lambda>l. letter_character l = c) (fallingLetters s))"
    by (simp add: proximitiesOf_def)
next
  show "keyboardMap (endGame s) = map (\<lambda>(char, keyElement). (char, Default)) (keyboardMap s)"
    by simp
next
  fix v l show "letter_top (moveLetter v l) = \<lfloor>letter_y (moveLetter v l)\<rfloor>"
    by (simp add: moveLetter_def)
next
  fix lang n show "letter_top (newLetter E lang n) = \<lfloor>letter_y (newLetter E lang n)\<rfloor>"
    by (simp add: newLetter_def Let_def)
qed

theorem keyboard_intensity_witness:
  "map_of (keyboardMap (updateKeyboardVisuals example_page example_falling)) (js ''A'')
     = Some (Hsl (70 - 25 * (98 / 560))) \<and>
   map_of (keyboardMap (updateKeyboardVisuals example_page example_falling)) (js ''B'')
     = Some (Hsl (70 - 25 * 1)) \<and>
   map_of (keyboardMap (updateKeyboardVisuals example_page example_falling)) (js ''C'')
     = Some Default \<and>
   map_of (keyboardMap (endGame (updateKeyboardVisuals example_page example_falling))) (js ''A'')
     = Some Default"
proof -
  have h: "LETTER_WIDTH < GAME_HEIGHT example_page"
    by (simp add: LETTER_WIDTH_def example_page_fields)
  note k = keyboard_intensity [OF h]
  have q: "proximitiesOf example_page c (fallingLetters example_falling) =
               map (\<lambda>l. of_int (letter_top l) / of_int (GAME_HEIGHT example_page - 40))
                 (filter (\<lambda>l. letter_character l = c) (fallingLetters example_falling))" for c
    using k [of example_falling] by blast
  have p: "proximitiesOf example_page (Some (js ''A'')) (fallingLetters example_falling) = [98 / 560]"
    "proximitiesOf example_page (Some (js ''B'')) (fallingLetters example_falling) = [598 / 560]"
    unfolding q by (simp_all add: example_falling_facts example_page_fields js_def)
  have e: "(\<exists>l\<in>set (fallingLetters example_falling). letter_character l = Some (js ''A''))"
     "(\<exists>l\<in>set (fallingLetters example_falling). letter_character l = Some (js ''B''))"
     "\<not> (\<exists>l\<in>set (fallingLetters example_falling). letter_character l = Some (js ''C''))"
    by (simp_all add: example_falling_facts js_def)
  have 1: "map_of (keyboardMap (updateKeyboardVisuals example_page example_falling)) c =
      map_option (\<lambda>keyElement. if \<exists>l\<in>set (fallingLetters example_falling). letter_character l = Some c
                  then Hsl (70 - 25 * min (Max (set (proximitiesOf example_page (Some c)
                                                      (fallingLetters example_falling)))) 1)
                  else Default) (map_of (keyboardMap example_falling) c)" for c
    using k [of example_falling] by (simp only: map_of_restyle)
  have 2: "map_of (keyboardMap (endGame t)) c =
      map_option (\<lambda>keyElement. Default) (map_of (keyboardMap t) c)" for t c
    using k [of t] by (simp only: map_of_restyle)
  show ?thesis
    by (simp only: 1 2) (simp add: e p example_falling_facts(4) example_keyboard)
qed

text \<open>
  Claim C7 fails as stated: the keys are coloured before the letters fall. In a frame
  that moves the letter \<open>A\<close> from 98 to 100, the key \<open>A\<close> shows the proximity of 98,
  not the one that the store holds after the frame.
\<close>

theorem frame_keys_counterexample:
  "gameIsActive example_falling \<and>
   gameIsActive (gameLoop example_page example_falling) \<and>
   map_of (keyboardMap (gameLoop example_page example_falling)) (js ''A'')
     = Some (Hsl (525 / 8)) \<and>
   map_of (keyboardMap (updateKeyboardVisuals example_page
             (gameLoop example_page example_falling))) (js ''A'')
     = Some (Hsl (1835 / 28))"
proof -
  have "keyboardMap (gameLoop example_page example_falling) =
      map (\<lambda>(char, keyElement).
                 (char, keyStyle (proximityMap example_page
                    (fallingLetters (updateProjectiles example_page
                       (updatePlayerPosition example_page example_falling)))) char))
             (keyboardMap example_falling)"
    using gameLoop_keyboardMap [OF example_falling_facts(1), of example_page]
    by (simp add: example_falling_step(1))
  also have "updateProjectiles example_page (updatePlayerPosition example_page example_falling)
      = updatePlayerPosition example_page example_falling"
    by (simp add: updateProjectiles_empty example_falling_facts)
  finally have "map_of (keyboardMap (gameLoop example_page example_falling)) (js ''A'')
     = Some (Hsl (525 / 8))"
    by (simp add: map_of_restyle example_styles example_falling_facts(4) example_keyboard)
  moreover from this have "map_of (keyboardMap (updateKeyboardVisuals example_page
             (gameLoop example_page example_falling))) (js ''A'')
     = Some (Hsl (1835 / 28))"
    by (simp only: map_of_updateKeyboardVisuals example_styles option.map)
  ultimately show ?thesis
    by (simp add: example_falling_facts example_falling_step)
qed

text \<open>
  Claim C7, amended. In every frame of an active session the keys are recoloured from
  the store as it stands after the player has moved and the projectiles have been advanced
  and their collisions resolved, and before the letters fall and the loss is checked: in a
  frame that leaves the session active the letters of the resulting store are those the
  keys were computed from, each advanced by the fall speed. A frame that ends the session
  leaves every key in the default style.
\<close>

theorem frame_keys_before_fall:
  assumes "gameIsActive s"
  shows "keyboardMap (gameLoop E s) =
           (if gameIsActive (gameLoop E s)
            then keyboardMap (updateKeyboardVisuals E
                   (updateProjectiles E (updatePlayerPosition E s)))
            else map (\<lambda>(char, keyElement). (char, Default)) (keyboardMap s)) \<and>
         (gameIsActive (gameLoop E s) \<longrightarrow>
            fallingLetters (gameLoop E s) =
              map (moveLetter (fallSpeed (updateProjectiles E (updatePlayerPosition E s))))
                (fallingLetters (updateProjectiles E (updatePlayerPosition E s))))"
proof (intro conjI impI)
  show "keyboardMap (gameLoop E s) =
           (if gameIsActive (gameLoop E s)
            then keyboardMap (updateKeyboardVisuals E
                   (updateProjectiles E (updatePlayerPosition E s)))
            else map (\<lambda>(char, keyElement). (char, Default)) (keyboardMap s))"
    using gameLoop_keyboardMap [OF assms, of E] by simp
next
  assume "gameIsActive (gameLoop E s)"
  with assms show "fallingLetters (gameLoop E s) =
              map (moveLetter (fallSpeed (updateProjectiles E (updatePlayerPosition E s))))
                (fallingLetters (updateProjectiles E (updatePlayerPosition E s)))"
    by (rule gameLoop_letters)
qed

theorem frame_keys_before_fall_witness:
  "map_of (keyboardMap (gameLoop example_page example_falling)) (js ''A'')
     = Some (Hsl (525 / 8)) \<and>
   map letter_top (fallingLetters example_falling) = [98, 598] \<and>
   map letter_top (fallingLetters (gameLoop example_page example_falling)) = [100, 600]"
proof -
  have s2: "updateProjectiles example_page (updatePlayerPosition example_page example_falling)
      = updatePlayerPosition example_page example_falling"
    by (simp add: updateProjectiles_empty example_falling_facts)
  from frame_keys_before_fall [OF example_falling_facts(1), of example_page]
  have "keyboardMap (gameLoop example_page example_falling) =
      keyboardMap (updateKeyboardVisuals example_page
                   (updateProjectiles example_page
                      (updatePlayerPosition example_page example_falling)))"
    by (simp only: example_falling_step(1) if_True)
  then have "map_of (keyboardMap (gameLoop example_page example_falling)) (js ''A'')
     = Some (Hsl (525 / 8))"
    by (simp only: s2 map_of_updateKeyboardVisuals updatePlayerPosition_fields example_styles
        example_falling_facts(4) example_keyboard option.map)
  then show ?thesis
    by (simp add: example_falling_facts example_falling_step)
qed

text \<open>
  Claim C8 fails as stated, in two ways. A projectile at \<open>top = 0\<close> is advanced to
  \<open>top = -10\<close>, beyond the top boundary, and stays in the store. A projectile that was
  already beyond the boundary (\<open>top = -10\<close>) is still compared with the letters, and
  scores a hit on a letter at the top of the field.
\<close>

theorem projectiles_drop_counterexample:
  "projectiles (updateProjectiles example_page example_at_top) =
     [\<lparr>proj_character = js ''a'', proj_left = 775 / 2, proj_top = - 10\<rparr>] \<and>
   proj_top (projectiles example_past_top ! 0) < 0 \<and>
   score example_past_top = 0 \<and>
   score (updateProjectiles example_page example_past_top) = 1"
  by (simp add: updateProjectiles_def projectileStep_def example_at_top_def example_past_top_def
      example_defs collides_defs resolveHit_def splice1_def Let_def)

text \<open>
  Claim C8, amended. Each projectile in turn is advanced upward by the fixed speed 10 and
  then compared with the falling letters, wherever it is. A projectile that collides
  resolves a hit and is removed. A projectile that does not collide is dropped exactly
  when its position before this advance was already beyond the top boundary
  (\<open>top < 0\<close>), and is otherwise kept at its advanced position; in a frame without
  collisions this describes the whole store.
\<close>

theorem projectiles_advance_then_drop:
  "((\<forall>p\<in>set (projectiles s). \<forall>l\<in>set (fallingLetters s). \<not> collides E (moveProjectile p) l) \<longrightarrow>
      updateProjectiles E s =
        s\<lparr>projectiles := map moveProjectile (filter (\<lambda>p. \<not> proj_top p < 0) (projectiles s))\<rparr>) \<and>
   (\<forall>p. proj_top (moveProjectile p) = proj_top p - 10) \<and>
   (i < length (projectiles s) \<and>
    (\<exists>j<length (fallingLetters s).
        collides E (moveProjectile (projectiles s ! i)) (fallingLetters s ! j)) \<longrightarrow>
      score (projectileStep E i s) = score s + 1 \<and>
      projectiles (projectileStep E i s) = splice1 i (projectiles s)) \<and>
   (i < length (projectiles s) \<and>
    (\<forall>j<length (fallingLetters s).
        \<not> collides E (moveProjectile (projectiles s ! i)) (fallingLetters s ! j)) \<longrightarrow>
      projectileStep E i s =
        s\<lparr>projectiles :=
            (if proj_top (projectiles s ! i) < 0 then splice1 i (projectiles s)
             else (projectiles s)[i := moveProjectile (projectiles s ! i)])\<rparr>)"
proof (intro conjI impI allI)
  assume a: "\<forall>p\<in>set (projectiles s). \<forall>l\<in>set (fallingLetters s). \<not> collides E (moveProjectile p) l"
  have "updateProjectilesFrom E (length (projectiles s)) s =
           s\<lparr>projectiles :=
               map moveProjectile (filter (\<lambda>p. \<not> proj_top p < 0)
                 (take (length (projectiles s)) (projectiles s)))
               @ drop (length (projectiles s)) (projectiles s)\<rparr>"
    using a by (intro updateProjectilesFrom_no_collision) simp_all
  then show "updateProjectiles E s =
        s\<lparr>projectiles := map moveProjectile (filter (\<lambda>p. \<not> proj_top p < 0) (projectiles s))\<rparr>"
    by (simp add: updateProjectiles_def)
next
  fix p show "proj_top (moveProjectile p) = proj_top p - 10"
    by (simp add: moveProjectile_def PROJECTILE_SPEED_def)
next
  assume a: "i < length (projectiles s) \<and>
    (\<exists>j<length (fallingLetters s).
        collides E (moveProjectile (projectiles s ! i)) (fallingLetters s ! j))"
  then have "scanLetters E (moveProjectile (projectiles s ! i)) (fallingLetters s)
               (length (fallingLetters s)) \<noteq> None"
    by (simp add: scanLetters_None)
  then obtain j where "scanLetters E (moveProjectile (projectiles s ! i)) (fallingLetters s)
               (length (fallingLetters s)) = Some j"
    by blast
  then have step: "projectileStep E i s =
      resolveHit E i j (s\<lparr>projectiles := (projectiles s)[i := moveProjectile (projectiles s ! i)]\<rparr>)"
    by (rule projectileStep_hit)
  show "score (projectileStep E i s) = score s + 1"
    by (simp add: step)
  show "projectiles (projectileStep E i s) = splice1 i (projectiles s)"
    by (simp add: step)
next
  assume a: "i < length (projectiles s) \<and>
    (\<forall>j<length (fallingLetters s).
        \<not> collides E (moveProjectile (projectiles s ! i)) (fallingLetters s ! j))"
  then have "scanLetters E (moveProjectile (projectiles s ! i)) (fallingLetters s)
               (length (fallingLetters s)) = None"
    by (simp add: scanLetters_None)
  then show "projectileStep E i s =
        s\<lparr>projectiles :=
            (if proj_top (projectiles s ! i) < 0 then splice1 i (projectiles s)
             else (projectiles s)[i := moveProjectile (projectiles s ! i)])\<rparr>"
    by (simp add: projectileStep_miss)
qed

theorem projectiles_advance_then_drop_witness:
  "updateProjectiles example_page example_at_top =
     example_at_top\<lparr>projectiles :=
        [\<lparr>proj_character = js ''a'', proj_left = 775 / 2, proj_top = - 10\<rparr>]\<rparr> \<and>
   score (projectileStep example_page 0 example_past_top) = 1 \<and>
   projectiles (projectileStep example_page 0 example_past_top) = []"
proof -
  have 1: "\<forall>p\<in>set (projectiles example_at_top). \<forall>l\<in>set (fallingLetters example_at_top).
             \<not> collides example_page (moveProjectile p) l"
    by (simp add: example_at_top_def example_defs collides_defs)
  have 2: "0 < length (projectiles example_past_top) \<and>
    (\<exists>j<length (fallingLetters example_past_top).
        collides example_page (moveProjectile (projectiles example_past_top ! 0))
          (fallingLetters example_past_top ! j))"
    by (simp add: example_past_top_def example_defs collides_defs)
  from projectiles_advance_then_drop [of example_at_top example_page 0] 1
  have "updateProjectiles example_page example_at_top =
        example_at_top\<lparr>projectiles := map moveProjectile
          (filter (\<lambda>p. \<not> proj_top p < 0) (projectiles example_at_top))\<rparr>"
    by blast
  moreover from projectiles_advance_then_drop [of example_past_top example_page 0] 2
  have "score (projectileStep example_page 0 example_past_top) = score example_past_top + 1 \<and>
      projectiles (projectileStep example_page 0 example_past_top) =
        splice1 0 (projectiles example_past_top)"
    by blast
  ultimately show ?thesis
    by (simp add: example_at_top_def example_past_top_def example_game_def
        moveProjectile_def PROJECTILE_SPEED_def splice1_def)
qed

text \<open>
  Claim C9 fails as stated. With English selected, the Hebrew key U+05E7, which is no
  letter of the active alphabet, enqueues a projectile. And a key-up of \<open>ArrowLeft\<close> that
  arrives after the session has ended changes the movement intent.
\<close>

theorem key_press_counterexample:
  "gameIsActive example_game \<and> selectedLanguage example_game = En \<and>
   [1511] \<notin> set ENGLISH_CHARACTERS \<and> toUpperCase [1511] \<notin> set ENGLISH_CHARACTERS \<and>
   projectiles (handleKeyPress example_page [1511] example_game) =
     projectiles example_game
     @ [\<lparr>proj_character = [1511], proj_left = 775 / 2, proj_top = 550\<rparr>] \<and>
   \<not> gameIsActive example_over \<and> isMovingLeft example_over \<and>
   \<not> isMovingLeft (handleKeyUp (js ''ArrowLeft'') example_over)"
  by (simp add: example_over_facts)
     (simp add: handleKeyPress_def handleKeyUp_def createProjectile_def example_defs
      ENGLISH_CHARACTERS_def ENGLISH_KEYBOARD_LAYOUT_def split_chars_def js_def
      toUpperCase_def toLowerCase_def isLower_def isUpper_def match_az_i_def
      HEBREW_CHARACTERS_def HEBREW_KEYBOARD_LAYOUT_def PROJECTILE_WIDTH_def Let_def)

text \<open>
  Claim C9, amended. While a session is active, a key-down whose key is a single
  character that is a Basic Latin letter of either case or a letter of the Hebrew layout,
  whichever language is selected, and only such a key, immediately enqueues exactly one
  projectile: it carries the key in lower case, is centred on the player's current
  horizontal centre and starts at the top of the player; the movement intent is unchanged.
  A key-down that arrives while no session is active changes nothing.
\<close>

theorem key_press_projectile:
  "(gameIsActive s \<and>
    (\<exists>c. key = [c] \<and> (65 \<le> c \<and> c \<le> 90 \<or> 97 \<le> c \<and> c \<le> 122 \<or>
                       c \<in> set (concat HEBREW_KEYBOARD_LAYOUT))) \<longrightarrow>
      projectiles (handleKeyPress E key s) =
        projectiles s
        @ [\<lparr>proj_character = map (\<lambda>c. if 65 \<le> c \<and> c \<le> 90 then c + 32 else c) key,
            proj_left = playerPosition s + of_int (PLAYER_WIDTH E) / 2 - 25 / 2,
            proj_top = GAME_HEIGHT E - PLAYER_HEIGHT E\<rparr>] \<and>
      isMovingLeft (handleKeyPress E key s) = isMovingLeft s \<and>
      isMovingRight (handleKeyPress E key s) = isMovingRight s) \<and>
   (gameIsActive s \<and>
    \<not> (\<exists>c. key = [c] \<and> (65 \<le> c \<and> c \<le> 90 \<or> 97 \<le> c \<and> c \<le> 122 \<or>
                       c \<in> set (concat HEBREW_KEYBOARD_LAYOUT))) \<longrightarrow>
      projectiles (handleKeyPress E key s) = projectiles s) \<and>
   (\<not> gameIsActive s \<longrightarrow> handleKeyPress E key s = s)"
proof (intro conjI impI)
  assume a: "gameIsActive s \<and>
    (\<exists>c. key = [c] \<and> (65 \<le> c \<and> c \<le> 90 \<or> 97 \<le> c \<and> c \<le> 122 \<or>
                       c \<in> set (concat HEBREW_KEYBOARD_LAYOUT)))"
  then obtain c where c: "key = [c]"
    "65 \<le> c \<and> c \<le> 90 \<or> 97 \<le> c \<and> c \<le> 122 \<or> c \<in> set (concat HEBREW_KEYBOARD_LAYOUT)"
    by blast
  have arrows: "key \<noteq> js ''ArrowLeft''" "key \<noteq> js ''ArrowRight''"
    by (simp_all add: c js_def)
  have fire: "length key = 1 \<and> (match_az_i key \<or> key \<in> set HEBREW_CHARACTERS)"
    using c by (auto simp: match_az_i_def isLower_def isUpper_def hebrew_units)
  have step: "handleKeyPress E key s = createProjectile E (toLowerCase key) s"
    using a arrows fire by (simp add: handleKeyPress_def)
  have lower: "toLowerCase key = map (\<lambda>c. if 65 \<le> c \<and> c \<le> 90 then c + 32 else c) key"
    by (simp add: toLowerCase_def isUpper_def)
  show "projectiles (handleKeyPress E key s) =
        projectiles s
        @ [\<lparr>proj_character = map (\<lambda>c. if 65 \<le> c \<and> c \<le> 90 then c + 32 else c) key,
            proj_left = playerPosition s + of_int (PLAYER_WIDTH E) / 2 - 25 / 2,
            proj_top = GAME_HEIGHT E - PLAYER_HEIGHT E\<rparr>]"
    by (simp add: step lower createProjectile_def PROJECTILE_WIDTH_def Let_def)
  show "isMovingLeft (handleKeyPress E key s) = isMovingLeft s"
    "isMovingRight (handleKeyPress E key s) = isMovingRight s"
    by (simp_all add: step createProjectile_def Let_def)
next
  assume a: "gameIsActive s \<and>
    \<not> (\<exists>c. key = [c] \<and> (65 \<le> c \<and> c \<le> 90 \<or> 97 \<le> c \<and> c \<le> 122 \<or>
                       c \<in> set (concat HEBREW_KEYBOARD_LAYOUT)))"
  have "\<not> (length key = 1 \<and> (match_az_i key \<or> key \<in> set HEBREW_CHARACTERS))"
  proof
    assume f: "length key = 1 \<and> (match_az_i key \<or> key \<in> set HEBREW_CHARACTERS)"
    then obtain c where c: "key = [c]"
      by (cases key) auto
    with f have "65 \<le> c \<and> c \<le> 90 \<or> 97 \<le> c \<and> c \<le> 122 \<or> c \<in> set (concat HEBREW_KEYBOARD_LAYOUT)"
      by (auto simp: match_az_i_def isLower_def isUpper_def hebrew_units)
    with a c show False by blast
  qed
  then show "projectiles (handleKeyPress E key s) = projectiles s"
    using a by (auto simp add: handleKeyPress_def Let_def)
next
  assume "\<not> gameIsActive s"
  then show "handleKeyPress E key s = s"
    by (simp add: handleKeyPress_def)
qed

theorem key_press_projectile_witness:
  "projectiles (handleKeyPress example_page (js ''A'') example_quiet) =
     [\<lparr>proj_character = js ''a'', proj_left = 775 / 2, proj_top = 550\<rparr>] \<and>
   projectiles (handleKeyPress example_page (js ''Shift'') example_quiet) = [] \<and>
   handleKeyPress example_page (js ''A'') example_over = example_over"
proof -
  have 1: "gameIsActive example_quiet \<and>
    (\<exists>c. js ''A'' = [c] \<and> (65 \<le> c \<and> c \<le> 90 \<or> 97 \<le> c \<and> c \<le> 122 \<or>
                       c \<in> set (concat HEBREW_KEYBOARD_LAYOUT)))"
    by (simp add: example_quiet_facts js_def)
  have 2: "gameIsActive example_quiet \<and>
    \<not> (\<exists>c. js ''Shift'' = [c] \<and> (65 \<le> c \<and> c \<le> 90 \<or> 97 \<le> c \<and> c \<le> 122 \<or>
                       c \<in> set (concat HEBREW_KEYBOARD_LAYOUT)))"
    by (simp add: example_quiet_facts js_def)
  from key_press_projectile [of example_quiet "js ''A''" example_page] 1
  have "projectiles (handleKeyPress example_page (js ''A'') example_quiet) =
        projectiles example_quiet
        @ [\<lparr>proj_character = map (\<lambda>c. if 65 \<le> c \<and> c \<le> 90 then c + 32 else c) (js ''A''),
            proj_left = playerPosition example_quiet + of_int (PLAYER_WIDTH example_page) / 2 - 25 / 2,
            proj_top = GAME_HEIGHT example_page - PLAYER_HEIGHT example_page\<rparr>]"
    by blast
  moreover from key_press_projectile [of example_quiet "js ''Shift''" example_page] 2
  have "projectiles (handleKeyPress example_page (js ''Shift'') example_quiet)
          = projectiles example_quiet"
    by blast
  moreover from key_press_projectile [of example_over _ example_page] example_over_facts(1)
  have "handleKeyPress example_page (js ''A'') example_over = example_over"
    by blast
  ultimately show ?thesis
    by (simp add: example_quiet_facts example_page_fields)
       (simp add: example_quiet_def example_game_def js_def)
qed

text \<open>
  Claim C10. A key-up of \<open>ArrowLeft\<close> or \<open>ArrowRight\<close> clears the corresponding movement
  flag, and nothing else, in every state, whether or not a session is active. The
  corresponding key-down sets the flag while a session is active and does nothing
  otherwise.
\<close>

theorem arrow_key_flags:
  "handleKeyUp (js ''ArrowLeft'') s = s\<lparr>isMovingLeft := False\<rparr> \<and>
   handleKeyUp (js ''ArrowRight'') s = s\<lparr>isMovingRight := False\<rparr> \<and>
   (gameIsActive s \<longrightarrow>
      handleKeyPress E (js ''ArrowLeft'') s = s\<lparr>isMovingLeft := True\<rparr> \<and>
      handleKeyPress E (js ''ArrowRight'') s = s\<lparr>isMovingRight := True\<rparr>) \<and>
   (\<not> gameIsActive s \<longrightarrow>
      handleKeyPress E (js ''ArrowLeft'') s = s \<and>
      handleKeyPress E (js ''ArrowRight'') s = s)"
  by (simp add: handleKeyUp_def handleKeyPress_def js_def)

theorem arrow_key_flags_witness:
  "\<not> gameIsActive example_over \<and> isMovingLeft example_over \<and>
   \<not> isMovingLeft (handleKeyUp (js ''ArrowLeft'') example_over) \<and>
   \<not> isMovingRight (handleKeyPress example_page (js ''ArrowRight'') example_over) \<and>
   gameIsActive example_game \<and> \<not> isMovingRight example_game \<and>
   isMovingRight (handleKeyPress example_page (js ''ArrowRight'') example_game) \<and>
   \<not> isMovingRight (handleKeyUp (js ''ArrowRight'')
        (handleKeyPress example_page (js ''ArrowRight'') example_game))"
proof -
  have a: "gameIsActive example_game" "\<not> isMovingRight example_game"
    by (simp_all add: example_game_def)
  have "handleKeyUp (js ''ArrowLeft'') example_over = example_over\<lparr>isMovingLeft := False\<rparr>"
    using arrow_key_flags [of example_over example_page] by blast
  moreover have "handleKeyPress example_page (js ''ArrowRight'') example_over = example_over"
    using arrow_key_flags [of example_over example_page] example_over_facts(1) by blast
  moreover have "handleKeyPress example_page (js ''ArrowRight'') example_game
      = example_game\<lparr>isMovingRight := True\<rparr>"
    using arrow_key_flags [of example_game example_page] a(1) by blast
  moreover have "handleKeyUp (js ''ArrowRight'') (example_game\<lparr>isMovingRight := True\<rparr>)
      = example_game\<lparr>isMovingRight := True, isMovingRight := False\<rparr>"
    using arrow_key_flags [of "example_game\<lparr>isMovingRight := True\<rparr>" example_page] by blast
  ultimately show ?thesis
    using a example_over_facts by simp
qed

end
